theory Spec2Isabelle
  imports Complex_Main "HOL-Library.Char_ord" "HOL-Library.List_Lexorder" "HOL-Library.Multiset"
begin

section \<open>The delivery manager: data model\<close>

text \<open>
  The development follows \<^verbatim>\<open>src/delivery_manager.py\<close>. The SQLite database is an explicit
  store (two tables in rowid order and their AUTOINCREMENT sequences), every operation takes
  the store and returns the new one, and every exception of the source is an \<open>Inl\<close> result.
  Strings are compared bytewise, as SQLite's BINARY collation and Python's \<^verbatim>\<open>==\<close> do.
  Rowids are natural numbers (the 64-bit bound of SQLite is not reached), and
  \<^verbatim>\<open>weight_kg\<close> is a real number that is stored and read back and never computed with.
\<close>

datatype error =
    IntegrityError    \<comment> \<open>sqlite3.IntegrityError: UNIQUE or NOT NULL constraint failed\<close>
  | ValueError        \<comment> \<open>\<^verbatim>\<open>DeliveryStatus(v)\<close> for a \<^verbatim>\<open>v\<close> that is no member's value\<close>
  | OperationalError  \<comment> \<open>sqlite3.OperationalError: the storage refused a statement\<close>

datatype DeliveryStatus =
    PENDING | PICKED_UP | IN_TRANSIT | OUT_FOR_DELIVERY
  | DELIVERED | FAILED_ATTEMPT | RETURNED | CANCELLED

fun status_value :: "DeliveryStatus \<Rightarrow> string" where
  "status_value PENDING = ''pending''"
| "status_value PICKED_UP = ''picked_up''"
| "status_value IN_TRANSIT = ''in_transit''"
| "status_value OUT_FOR_DELIVERY = ''out_for_delivery''"
| "status_value DELIVERED = ''delivered''"
| "status_value FAILED_ATTEMPT = ''failed_attempt''"
| "status_value RETURNED = ''returned''"
| "status_value CANCELLED = ''cancelled''"

definition all_statuses :: "DeliveryStatus list" where
  "all_statuses = [PENDING, PICKED_UP, IN_TRANSIT, OUT_FOR_DELIVERY,
                   DELIVERED, FAILED_ATTEMPT, RETURNED, CANCELLED]"

text \<open>\<^verbatim>\<open>DeliveryStatus(v)\<close>: the member whose value is \<open>v\<close>, ValueError when there is none.\<close>

definition DeliveryStatus_of :: "string \<Rightarrow> error + DeliveryStatus" where
  "DeliveryStatus_of v =
     (case find (\<lambda>m. status_value m = v) all_statuses of
        None \<Rightarrow> Inl ValueError
      | Some m \<Rightarrow> Inr m)"

text \<open>The dataclass \<^verbatim>\<open>Delivery\<close>; the fields \<^verbatim>\<open>id\<close> and \<^verbatim>\<open>notes\<close> are written \<open>id'\<close> and \<open>notes'\<close>.\<close>

record Delivery =
  sender :: string
  recipient :: string
  destination :: string
  weight_kg :: real
  status :: DeliveryStatus
  tracking_number :: string
  estimated_delivery :: "string option"
  actual_delivery :: "string option"
  courier :: string
  notes' :: string
  created_at :: string
  updated_at :: string
  id' :: "nat option"

text \<open>A row of the table \<^verbatim>\<open>deliveries\<close>: the column \<^verbatim>\<open>status\<close> is TEXT, not the enum.\<close>

record deliveries_row =
  c_id :: nat
  c_tracking_number :: string
  c_sender :: string
  c_recipient :: string
  c_destination :: string
  c_weight_kg :: real
  c_status :: string
  c_estimated_delivery :: "string option"
  c_actual_delivery :: "string option"
  c_courier :: string
  c_notes :: string
  c_created_at :: string
  c_updated_at :: string

text \<open>A row of the table \<^verbatim>\<open>tracking_events\<close>.\<close>

record tracking_events_row =
  e_id :: nat
  e_delivery_id :: nat
  e_status :: string
  e_location :: string
  e_message :: string
  e_timestamp :: string

record store =
  deliveries :: "deliveries_row list"
  tracking_events :: "tracking_events_row list"
  seq_deliveries :: nat
  seq_tracking_events :: nat

text \<open>
  What an operation reads from outside the store: the random indices that
  \<^verbatim>\<open>random.choices\<close> draws, the two readings of \<^verbatim>\<open>datetime.now().isoformat()\<close> (one at the
  start of the operation, one inside \<^verbatim>\<open>_log_event\<close>), and whether the storage accepts the
  INSERT into \<^verbatim>\<open>tracking_events\<close> (when it does not, sqlite3 raises OperationalError).
  Every other statement is taken to be accepted by the storage, unless it violates a
  constraint of the schema.
\<close>

record env =
  rnd :: "nat \<Rightarrow> nat"
  now_op :: string
  now_event :: string
  event_insert_ok :: bool

section \<open>The operations\<close>

definition ascii_uppercase :: string where
  "ascii_uppercase = ''ABCDEFGHIJKLMNOPQRSTUVWXYZ''"

definition digits :: string where
  "digits = ''0123456789''"

text \<open>
  \<^verbatim>\<open>random.choices(population, k=k)\<close>: \<open>k\<close> independent draws with replacement. The \<open>j\<close>-th
  draw takes the element at index \<open>rnd j mod length population\<close>, so any stream of naturals
  is a run of the generator.
\<close>

definition choices :: "(nat \<Rightarrow> nat) \<Rightarrow> string \<Rightarrow> nat \<Rightarrow> string" where
  "choices r population k = map (\<lambda>j. population ! (r j mod length population)) [0..<k]"

text \<open>The default factory of \<^verbatim>\<open>Delivery.tracking_number\<close>.\<close>

definition new_tracking_number :: "(nat \<Rightarrow> nat) \<Rightarrow> string" where
  "new_tracking_number r = ''BR'' @ choices r (ascii_uppercase @ digits) 10"

definition init_db :: store where
  "init_db = \<lparr>deliveries = [], tracking_events = [], seq_deliveries = 0, seq_tracking_events = 0\<rparr>"

text \<open>
  The rowid an AUTOINCREMENT table gives its next row: one more than the largest rowid that
  the table holds or has ever held.
\<close>

definition next_rowid :: "nat \<Rightarrow> nat list \<Rightarrow> nat" where
  "next_rowid sq ids = Suc (foldr max ids sq)"

text \<open>Python's \<^verbatim>\<open>x or ""\<close> on a string.\<close>

definition or_empty :: "string \<Rightarrow> string" where
  "or_empty x = (if x = [] then [] else x)"

definition row_to_delivery :: "deliveries_row \<Rightarrow> error + Delivery" where
  "row_to_delivery row =
     (case DeliveryStatus_of (c_status row) of
        Inl e \<Rightarrow> Inl e
      | Inr st \<Rightarrow> Inr \<lparr>sender = c_sender row, recipient = c_recipient row,
                       destination = c_destination row, weight_kg = c_weight_kg row,
                       status = st, tracking_number = c_tracking_number row,
                       estimated_delivery = c_estimated_delivery row,
                       actual_delivery = c_actual_delivery row,
                       courier = or_empty (c_courier row), notes' = or_empty (c_notes row),
                       created_at = c_created_at row, updated_at = c_updated_at row,
                       id' = Some (c_id row)\<rparr>)"

text \<open>
  \<^verbatim>\<open>_log_event\<close>: one INSERT into \<^verbatim>\<open>tracking_events\<close> in a transaction of its own. The column
  \<^verbatim>\<open>delivery_id\<close> is NOT NULL; the REFERENCES clause is not enforced (SQLite's foreign keys
  are off unless switched on per connection). A refused INSERT leaves the store as it was.
\<close>

definition log_event ::
  "store \<Rightarrow> env \<Rightarrow> nat option \<Rightarrow> string \<Rightarrow> string \<Rightarrow> string \<Rightarrow> error + store" where
  "log_event s ev delivery_id st location message =
     (case delivery_id of
        None \<Rightarrow> Inl IntegrityError
      | Some did \<Rightarrow>
          if \<not> event_insert_ok ev then Inl OperationalError
          else
            let rid = next_rowid (seq_tracking_events s) (map e_id (tracking_events s))
            in Inr (s\<lparr>tracking_events := tracking_events s @
                        [\<lparr>e_id = rid, e_delivery_id = did, e_status = st,
                          e_location = location, e_message = message,
                          e_timestamp = now_event ev\<rparr>],
                      seq_tracking_events := rid\<rparr>))"

text \<open>The row that the INSERT of \<^verbatim>\<open>create\<close> writes for the Delivery \<open>d\<close> under the rowid \<open>rid\<close>.\<close>

definition insert_values :: "nat \<Rightarrow> Delivery \<Rightarrow> deliveries_row" where
  "insert_values rid d =
     \<lparr>c_id = rid, c_tracking_number = tracking_number d,
      c_sender = sender d, c_recipient = recipient d,
      c_destination = destination d, c_weight_kg = weight_kg d,
      c_status = status_value (status d),
      c_estimated_delivery = estimated_delivery d,
      c_actual_delivery = actual_delivery d,
      c_courier = courier d, c_notes = notes' d,
      c_created_at = created_at d, c_updated_at = updated_at d\<rparr>"

text \<open>
  The constructor call \<^verbatim>\<open>Delivery(sender=sender, ..., created_at=now, updated_at=now)\<close> of
  \<^verbatim>\<open>create\<close>: \<^verbatim>\<open>status\<close>, \<^verbatim>\<open>tracking_number\<close>, \<^verbatim>\<open>actual_delivery\<close> and \<^verbatim>\<open>id\<close> take their defaults.
\<close>

definition new_delivery ::
  "env \<Rightarrow> string \<Rightarrow> string \<Rightarrow> string \<Rightarrow> real \<Rightarrow> string \<Rightarrow> string option \<Rightarrow> string \<Rightarrow> Delivery" where
  "new_delivery ev sender_a recipient_a destination_a weight_a courier_a eta_a notes_a =
     (let now = now_op ev
      in \<lparr>sender = sender_a, recipient = recipient_a, destination = destination_a,
          weight_kg = weight_a, status = PENDING,
          tracking_number = new_tracking_number (rnd ev),
          estimated_delivery = eta_a, actual_delivery = None,
          courier = courier_a, notes' = notes_a,
          created_at = now, updated_at = now, id' = None\<rparr>)"

text \<open>
  \<^verbatim>\<open>create\<close>: the INSERT into \<^verbatim>\<open>deliveries\<close> is committed first (it fails on the UNIQUE
  constraint of \<^verbatim>\<open>tracking_number\<close>), then \<^verbatim>\<open>_log_event\<close> runs in a second transaction.
\<close>

definition create ::
  "store \<Rightarrow> env \<Rightarrow> string \<Rightarrow> string \<Rightarrow> string \<Rightarrow> real \<Rightarrow> string \<Rightarrow> string option \<Rightarrow> string
     \<Rightarrow> (error + Delivery) \<times> store" where
  "create s ev sender_a recipient_a destination_a weight_a courier_a eta_a notes_a =
     (let d = new_delivery ev sender_a recipient_a destination_a weight_a courier_a eta_a notes_a
      in if \<exists>r \<in> set (deliveries s). c_tracking_number r = tracking_number d
         then (Inl IntegrityError, s)
         else
           let rid = next_rowid (seq_deliveries s) (map c_id (deliveries s));
               s1 = s\<lparr>deliveries := deliveries s @ [insert_values rid d],
                     seq_deliveries := rid\<rparr>;
               d1 = d\<lparr>id' := Some rid\<rparr>
           in case log_event s1 ev (id' d1) (status_value (status d1)) [] ''Shipment created'' of
                Inl e \<Rightarrow> (Inl e, s1)
              | Inr s2 \<Rightarrow> (Inr d1, s2))"

text \<open>\<^verbatim>\<open>get\<close>: the row with that tracking number (the first in rowid order), decoded.\<close>

definition get :: "store \<Rightarrow> string \<Rightarrow> error + Delivery option" where
  "get s tn =
     (case find (\<lambda>r. c_tracking_number r = tn) (deliveries s) of
        None \<Rightarrow> Inr None
      | Some row \<Rightarrow> (case row_to_delivery row of Inl e \<Rightarrow> Inl e | Inr d \<Rightarrow> Inr (Some d)))"

text \<open>SQL's \<^verbatim>\<open>COALESCE(a, b)\<close>.\<close>

definition coalesce :: "'a option \<Rightarrow> 'a option \<Rightarrow> 'a option" where
  "coalesce a b = (case a of None \<Rightarrow> b | Some x \<Rightarrow> Some x)"

text \<open>The UPDATE statement of \<^verbatim>\<open>update_status\<close>, on every row with that tracking number.\<close>

definition update_rows ::
  "string \<Rightarrow> string option \<Rightarrow> string \<Rightarrow> string \<Rightarrow> deliveries_row list \<Rightarrow> deliveries_row list" where
  "update_rows new_status actual now tn rows =
     map (\<lambda>r. if c_tracking_number r = tn
              then r\<lparr>c_status := new_status,
                     c_actual_delivery := coalesce actual (c_actual_delivery r),
                     c_updated_at := now\<rparr>
              else r) rows"

text \<open>
  \<^verbatim>\<open>update_status\<close>: the UPDATE is committed, then the row is read back with \<^verbatim>\<open>get\<close>, then
  the event is appended when \<^verbatim>\<open>get\<close> returned a Delivery.
\<close>

definition update_status ::
  "store \<Rightarrow> env \<Rightarrow> string \<Rightarrow> string \<Rightarrow> string \<Rightarrow> string \<Rightarrow> (error + Delivery option) \<times> store" where
  "update_status s ev tn new_status location message =
     (let now = now_op ev;
          actual = (if new_status = status_value DELIVERED then Some now else None);
          s1 = s\<lparr>deliveries := update_rows new_status actual now tn (deliveries s)\<rparr>
      in case get s1 tn of
           Inl e \<Rightarrow> (Inl e, s1)
         | Inr None \<Rightarrow> (Inr None, s1)
         | Inr (Some d) \<Rightarrow>
             (case log_event s1 ev (id' d) new_status location message of
                Inl e \<Rightarrow> (Inl e, s1)
              | Inr s2 \<Rightarrow> (Inr (Some d), s2)))"

text \<open>The list comprehension \<^verbatim>\<open>[self._row_to_delivery(r) for r in rows]\<close>.\<close>

fun rows_to_deliveries :: "deliveries_row list \<Rightarrow> error + Delivery list" where
  "rows_to_deliveries [] = Inr []"
| "rows_to_deliveries (r # rs) =
     (case row_to_delivery r of
        Inl e \<Rightarrow> Inl e
      | Inr d \<Rightarrow> (case rows_to_deliveries rs of Inl e \<Rightarrow> Inl e | Inr ds \<Rightarrow> Inr (d # ds)))"

text \<open>
  \<^verbatim>\<open>ORDER BY updated_at DESC\<close>: a stable sort in descending order, so rows with equal
  keys stay in rowid order, as SQLite returns them.
\<close>

definition order_by_updated_at_desc :: "deliveries_row list \<Rightarrow> deliveries_row list" where
  "order_by_updated_at_desc rows = rev (sort_key c_updated_at (rev rows))"

text \<open>
  \<^verbatim>\<open>list_deliveries\<close>: \<^verbatim>\<open>if status:\<close> holds for a non-empty string only, so \<^verbatim>\<open>None\<close> and \<^verbatim>\<open>""\<close>
  both select every row.
\<close>

definition list_deliveries :: "store \<Rightarrow> string option \<Rightarrow> error + Delivery list" where
  "list_deliveries s st =
     (let rows = (case st of
                    None \<Rightarrow> deliveries s
                  | Some v \<Rightarrow> if v = [] then deliveries s
                              else filter (\<lambda>r. c_status r = v) (deliveries s))
      in rows_to_deliveries (order_by_updated_at_desc rows))"

text \<open>\<^verbatim>\<open>history\<close>: the events of the Delivery that \<^verbatim>\<open>get\<close> returns, \<^verbatim>\<open>ORDER BY timestamp\<close>.\<close>

definition history :: "store \<Rightarrow> string \<Rightarrow> error + tracking_events_row list" where
  "history s tn =
     (case get s tn of
        Inl e \<Rightarrow> Inl e
      | Inr None \<Rightarrow> Inr []
      | Inr (Some d) \<Rightarrow>
          Inr (sort_key e_timestamp
                 (filter (\<lambda>e. Some (e_delivery_id e) = id' d) (tracking_events s))))"

section \<open>Runs of the manager\<close>

text \<open>A call of one of the two mutating operations, with what it reads from outside.\<close>

datatype op =
    Create env string string string real string "string option" string
  | UpdateStatus env string string string string

fun step :: "store \<Rightarrow> op \<Rightarrow> store" where
  "step s (Create ev a b c w co eta n) = snd (create s ev a b c w co eta n)"
| "step s (UpdateStatus ev tn st loc msg) = snd (update_status s ev tn st loc msg)"

text \<open>The store after a sequence of calls, and every store on the way.\<close>

fun run :: "store \<Rightarrow> op list \<Rightarrow> store" where
  "run s [] = s"
| "run s (x # xs) = run (step s x) xs"

fun trace :: "store \<Rightarrow> op list \<Rightarrow> store list" where
  "trace s [] = [s]"
| "trace s (x # xs) = s # trace (step s x) xs"

fun op_env :: "op \<Rightarrow> env" where
  "op_env (Create ev a b c w co eta n) = ev"
| "op_env (UpdateStatus ev tn st loc msg) = ev"

text \<open>A Shipment is in status Delivered in the store \<open>s\<close>.\<close>

definition delivered_in :: "store \<Rightarrow> string \<Rightarrow> bool" where
  "delivered_in s tn =
     (\<exists>r \<in> set (deliveries s). c_tracking_number r = tn \<and> c_status r = status_value DELIVERED)"

definition ever_delivered :: "store \<Rightarrow> op list \<Rightarrow> string \<Rightarrow> bool" where
  "ever_delivered s ops tn = (\<exists>s' \<in> set (trace s ops). delivered_in s' tn)"

text \<open>No call of the run had its event INSERT refused.\<close>

definition no_fault :: "op list \<Rightarrow> bool" where
  "no_fault ops = (\<forall>x \<in> set ops. event_insert_ok (op_env x))"

text \<open>Every event refers to a stored Shipment; every Shipment has its creation event.\<close>

definition events_have_parent :: "store \<Rightarrow> bool" where
  "events_have_parent s =
     (\<forall>e \<in> set (tracking_events s). \<exists>r \<in> set (deliveries s). c_id r = e_delivery_id e)"

definition has_creation_event :: "store \<Rightarrow> deliveries_row \<Rightarrow> bool" where
  "has_creation_event s r =
     (\<exists>e \<in> set (tracking_events s).
        e_delivery_id e = c_id r \<and> e_message e = ''Shipment created'')"

text \<open>The tracking number identifies a stored Shipment.\<close>

definition known :: "store \<Rightarrow> string \<Rightarrow> bool" where
  "known s tn = (\<exists>r \<in> set (deliveries s). c_tracking_number r = tn)"

text \<open>The string is the value of one of the eight declared statuses.\<close>

definition declared :: "string \<Rightarrow> bool" where
  "declared v = (v \<in> set (map status_value all_statuses))"

text \<open>The random stream as it stands after \<open>k\<close> draws.\<close>

definition rnd_after :: "nat \<Rightarrow> (nat \<Rightarrow> nat) \<Rightarrow> nat \<Rightarrow> nat" where
  "rnd_after k r j = r (j + k)"

section \<open>Auxiliary notions\<close>

text \<open>The row that \<^verbatim>\<open>_log_event\<close> appends to \<^verbatim>\<open>tracking_events\<close> in the store \<open>s\<close>.\<close>

definition status_event ::
  "store \<Rightarrow> env \<Rightarrow> nat \<Rightarrow> string \<Rightarrow> string \<Rightarrow> string \<Rightarrow> tracking_events_row" where
  "status_event s ev did ns loc msg =
     \<lparr>e_id = next_rowid (seq_tracking_events s) (map e_id (tracking_events s)),
      e_delivery_id = did, e_status = ns, e_location = loc,
      e_message = msg, e_timestamp = now_event ev\<rparr>"

text \<open>The creation event that \<^verbatim>\<open>create\<close> logs for the Shipment with rowid \<open>rid\<close>.\<close>

definition creation_event :: "store \<Rightarrow> env \<Rightarrow> nat \<Rightarrow> tracking_events_row" where
  "creation_event s ev rid =
     \<lparr>e_id = next_rowid (seq_tracking_events s) (map e_id (tracking_events s)),
      e_delivery_id = rid, e_status = ''pending'', e_location = [],
      e_message = ''Shipment created'', e_timestamp = now_event ev\<rparr>"

text \<open>The parameter \<^verbatim>\<open>actual\<close> of the UPDATE, and the store once the UPDATE is committed.\<close>

definition actual_for :: "env \<Rightarrow> string \<Rightarrow> string option" where
  "actual_for ev ns = (if ns = ''delivered'' then Some (now_op ev) else None)"

definition after_update :: "store \<Rightarrow> env \<Rightarrow> string \<Rightarrow> string \<Rightarrow> store" where
  "after_update s ev tn ns =
     s\<lparr>deliveries := update_rows ns (actual_for ev ns) (now_op ev) tn (deliveries s)\<rparr>"

text \<open>Every stored Shipment has its creation event.\<close>

definition all_created :: "store \<Rightarrow> bool" where
  "all_created s = (\<forall>r \<in> set (deliveries s). has_creation_event s r)"

text \<open>
  \<open>E\<close> is the set of tracking numbers that were in status Delivered at some time: a row has
  an \<^verbatim>\<open>actual_delivery\<close> exactly when its tracking number is in \<open>E\<close>, \<open>E\<close> holds stored
  tracking numbers only, and it holds those that are Delivered now.
\<close>

definition actual_inv :: "store \<Rightarrow> (string \<Rightarrow> bool) \<Rightarrow> bool" where
  "actual_inv s E =
     ((\<forall>r \<in> set (deliveries s). (c_actual_delivery r \<noteq> None) = E (c_tracking_number r))
      \<and> (\<forall>tn. E tn \<longrightarrow> known s tn)
      \<and> (\<forall>tn. delivered_in s tn \<longrightarrow> E tn))"









section \<open>Concrete runs\<close>

definition env0 :: env where
  "env0 = \<lparr>rnd = (\<lambda>j. 0), now_op = ''2026-01-01T10:00:00.000001'',
           now_event = ''2026-01-01T10:00:00.000002'', event_insert_ok = True\<rparr>"

definition env1 :: env where
  "env1 = \<lparr>rnd = (\<lambda>j. 1), now_op = ''2026-01-02T09:30:00.000001'',
           now_event = ''2026-01-02T09:30:00.000002'', event_insert_ok = True\<rparr>"

definition env2 :: env where
  "env2 = \<lparr>rnd = (\<lambda>j. 2), now_op = ''2026-01-03T08:15:00.000001'',
           now_event = ''2026-01-03T08:15:00.000002'', event_insert_ok = True\<rparr>"

text \<open>The first ten draws repeat those of \<open>env0\<close>; the next ten would give a new code.\<close>

definition env_retry :: env where
  "env_retry = \<lparr>rnd = (\<lambda>j. if j < 10 then 0 else 1), now_op = ''2026-01-02T09:30:00.000001'',
                now_event = ''2026-01-02T09:30:00.000002'', event_insert_ok = True\<rparr>"

text \<open>The storage refuses the event INSERT.\<close>

definition env_fault :: env where
  "env_fault = \<lparr>rnd = (\<lambda>j. 0), now_op = ''2026-01-01T10:00:00.000001'',
                now_event = ''2026-01-01T10:00:00.000002'', event_insert_ok = False\<rparr>"

definition op_create0 :: op where
  "op_create0 = Create env0 ''Alice'' ''Bob'' ''123 Main St'' (5 / 2) [] None []"

definition op_create1 :: op where
  "op_create1 = Create env1 ''Carol'' ''Dave'' ''9 Side Rd'' 1 [] None []"

definition op_lost :: op where
  "op_lost = UpdateStatus env1 ''BRAAAAAAAAAA'' ''lost'' [] []"

definition op_delivered :: op where
  "op_delivered = UpdateStatus env1 ''BRAAAAAAAAAA'' ''delivered'' ''Depot A'' []"

definition op_in_transit :: op where
  "op_in_transit = UpdateStatus env2 ''BRAAAAAAAAAA'' ''in_transit'' [] []"

text \<open>The store after one \<^verbatim>\<open>create\<close>, and after its status was set to \<^verbatim>\<open>"lost"\<close>.\<close>

definition store_one :: store where
  "store_one = run init_db [op_create0]"

definition store_lost :: store where
  "store_lost = run init_db [op_create0, op_lost]"

definition store_two :: store where
  "store_two = run init_db [op_create0, op_create1]"

text \<open>Two Shipments, the older one touched last.\<close>

definition store_listing :: store where
  "store_listing = run init_db [op_create0, op_create1, op_in_transit]"

definition delivery_one :: Delivery where
  "delivery_one =
     \<lparr>sender = ''Alice'', recipient = ''Bob'', destination = ''123 Main St'',
      weight_kg = 5 / 2, status = PENDING, tracking_number = ''BRAAAAAAAAAA'',
      estimated_delivery = None, actual_delivery = None, courier = [], notes' = [],
      created_at = ''2026-01-01T10:00:00.000001'', updated_at = ''2026-01-01T10:00:00.000001'',
      id' = Some 1\<rparr>"

definition delivery_two :: Delivery where
  "delivery_two =
     \<lparr>sender = ''Carol'', recipient = ''Dave'', destination = ''9 Side Rd'',
      weight_kg = 1, status = PENDING, tracking_number = ''BRBBBBBBBBBB'',
      estimated_delivery = None, actual_delivery = None, courier = [], notes' = [],
      created_at = ''2026-01-02T09:30:00.000001'', updated_at = ''2026-01-02T09:30:00.000001'',
      id' = Some 2\<rparr>"


definition op_create_fault :: op where
  "op_create_fault = Create env_fault ''Alice'' ''Bob'' ''123 Main St'' (5 / 2) [] None []"

text \<open>The store after a \<^verbatim>\<open>create\<close> whose event INSERT was refused.\<close>

definition store_orphan :: store where
  "store_orphan = run init_db [op_create_fault]"

definition store_delivered :: store where
  "store_delivered = run init_db [op_create0, op_create1, op_delivered]"

definition ops_delivered_in_transit :: "op list" where
  "ops_delivered_in_transit = [op_create0, op_create1, op_delivered, op_in_transit]"









section \<open>Decoding the status column\<close>

lemma DeliveryStatus_of_value: "DeliveryStatus_of (status_value m) = Inr m"
  by (cases m) (simp_all add: DeliveryStatus_of_def all_statuses_def)

lemma DeliveryStatus_of_Inr: "DeliveryStatus_of v = Inr m \<Longrightarrow> v = status_value m"
  by (auto simp: DeliveryStatus_of_def split: option.splits dest: find_Some_iff[THEN iffD1])

lemma DeliveryStatus_of_undeclared: "\<not> declared v \<Longrightarrow> DeliveryStatus_of v = Inl ValueError"
  by (auto simp: DeliveryStatus_of_def declared_def find_None_iff split: option.splits
      dest!: find_Some_iff[THEN iffD1])

lemma DeliveryStatus_of_declared: "declared v \<Longrightarrow> \<exists>m. DeliveryStatus_of v = Inr m"
  by (auto simp: declared_def DeliveryStatus_of_value)

lemma declared_nonempty: "declared v \<Longrightarrow> v \<noteq> []"
  by (auto simp: declared_def all_statuses_def)

lemma row_to_delivery_error: "row_to_delivery r = Inl e \<Longrightarrow> e = ValueError"
  by (auto simp: row_to_delivery_def DeliveryStatus_of_def split: sum.splits option.splits)

lemma row_to_delivery_undeclared:
  "\<not> declared (c_status r) \<Longrightarrow> row_to_delivery r = Inl ValueError"
  by (simp add: row_to_delivery_def DeliveryStatus_of_undeclared)

lemma row_to_delivery_declared:
  "declared (c_status r) \<Longrightarrow> \<exists>d. row_to_delivery r = Inr d"
  by (auto simp: row_to_delivery_def dest: DeliveryStatus_of_declared)

lemma row_to_delivery_fields:
  "row_to_delivery r = Inr d \<Longrightarrow>
     id' d = Some (c_id r) \<and> tracking_number d = c_tracking_number r \<and>
     updated_at d = c_updated_at r \<and> actual_delivery d = c_actual_delivery r \<and>
     c_status r = status_value (status d)"
  by (auto simp: row_to_delivery_def split: sum.splits dest: DeliveryStatus_of_Inr)

lemma rows_to_deliveries_Inr_iff:
  "rows_to_deliveries rows = Inr ds \<longleftrightarrow> map row_to_delivery rows = map Inr ds"
proof (induction rows arbitrary: ds)
  case Nil
  then show ?case by auto
next
  case (Cons r rs)
  show ?case
  proof (cases ds)
    case Nil
    then show ?thesis by (simp split: sum.splits)
  next
    case (Cons d ds')
    with Cons.IH[of ds'] show ?thesis by (auto split: sum.splits)
  qed
qed

lemma rows_to_deliveries_error: "rows_to_deliveries rows = Inl e \<Longrightarrow> e = ValueError"
  by (induction rows arbitrary: e) (auto split: sum.splits dest: row_to_delivery_error)

lemma rows_to_deliveries_undeclared:
  assumes "\<exists>r \<in> set rows. \<not> declared (c_status r)"
  shows "rows_to_deliveries rows = Inl ValueError"
proof (cases "rows_to_deliveries rows")
  case (Inl e)
  then show ?thesis by (simp add: rows_to_deliveries_error)
next
  case (Inr ds)
  then have eq: "map row_to_delivery rows = map Inr ds" by (simp add: rows_to_deliveries_Inr_iff)
  from assms obtain r where r: "r \<in> set rows" "\<not> declared (c_status r)" by blast
  then have "Inl ValueError \<in> row_to_delivery ` set rows"
    using row_to_delivery_undeclared[of r] by force
  then have "Inl ValueError \<in> set (map row_to_delivery rows)" by simp
  with eq show ?thesis by auto
qed

lemma rows_to_deliveries_declared:
  "\<forall>r \<in> set rows. declared (c_status r) \<Longrightarrow> \<exists>ds. rows_to_deliveries rows = Inr ds"
proof (induction rows)
  case Nil
  then show ?case by simp
next
  case (Cons r rs)
  then obtain d ds where "row_to_delivery r = Inr d" "rows_to_deliveries rs = Inr ds"
    using row_to_delivery_declared[of r] by auto
  then show ?case by simp
qed

section \<open>The ORDER BY of the listing\<close>

lemma set_order_by [simp]: "set (order_by_updated_at_desc rows) = set rows"
  by (simp add: order_by_updated_at_desc_def)

lemma mset_order_by [simp]: "mset (order_by_updated_at_desc rows) = mset rows"
  by (simp add: order_by_updated_at_desc_def)

lemma sorted_order_by: "sorted (rev (map c_updated_at (order_by_updated_at_desc rows)))"
  by (simp add: order_by_updated_at_desc_def rev_map)

lemma map_updated_at:
  "map row_to_delivery rows = map Inr ds \<Longrightarrow> map updated_at ds = map c_updated_at rows"
proof (induction rows arbitrary: ds)
  case Nil
  then show ?case by simp
next
  case (Cons r rs)
  then obtain d ds' where ds: "ds = d # ds'" by (cases ds) auto
  with Cons.prems have "row_to_delivery r = Inr d" "map row_to_delivery rs = map Inr ds'"
    by simp_all
  with Cons.IH[of ds'] ds show ?case
    using row_to_delivery_fields[of r d] by simp
qed

lemma rows_to_deliveries_sorted:
  assumes "rows_to_deliveries (order_by_updated_at_desc rows) = Inr ds"
  shows "sorted (rev (map updated_at ds))
         \<and> mset (map Inr ds) = mset (map row_to_delivery rows)"
proof -
  from assms have eq: "map row_to_delivery (order_by_updated_at_desc rows) = map Inr ds"
    by (simp add: rows_to_deliveries_Inr_iff)
  then have "map updated_at ds = map c_updated_at (order_by_updated_at_desc rows)"
    by (rule map_updated_at)
  then have srt: "sorted (rev (map updated_at ds))" by (simp add: sorted_order_by)
  have "mset (map Inr ds) = mset (map row_to_delivery (order_by_updated_at_desc rows))"
    using eq by simp
  also have "\<dots> = image_mset row_to_delivery (mset (order_by_updated_at_desc rows))" by simp
  also have "\<dots> = mset (map row_to_delivery rows)" by simp
  finally show ?thesis using srt by simp
qed

section \<open>The UPDATE statement\<close>

lemma update_rows_unknown:
  "\<forall>r \<in> set rows. c_tracking_number r \<noteq> tn \<Longrightarrow> update_rows ns a t tn rows = rows"
  by (induction rows) (simp_all add: update_rows_def)

lemma map_tn_update_rows:
  "map c_tracking_number (update_rows ns a t tn rows) = map c_tracking_number rows"
  by (induction rows) (simp_all add: update_rows_def)

lemma map_id_update_rows:
  "map c_id (update_rows ns a t tn rows) = map c_id rows"
  by (induction rows) (simp_all add: update_rows_def)

lemma in_update_rows_image:
  assumes "r \<in> set (update_rows ns a t tn rows)"
  shows "\<exists>r0 \<in> set rows. r = (if c_tracking_number r0 = tn
          then r0\<lparr>c_status := ns, c_actual_delivery := coalesce a (c_actual_delivery r0),
                  c_updated_at := t\<rparr>
          else r0)"
proof -
  from assms have "r \<in> (\<lambda>r0. if c_tracking_number r0 = tn
          then r0\<lparr>c_status := ns, c_actual_delivery := coalesce a (c_actual_delivery r0),
                  c_updated_at := t\<rparr>
          else r0) ` set rows"
    by (simp only: update_rows_def set_map)
  then show ?thesis by (rule imageE) (rule bexI)
qed

lemma in_update_rows:
  assumes "r \<in> set (update_rows ns a t tn rows)"
  obtains r0 where "r0 \<in> set rows" "c_tracking_number r0 = tn"
      "r = r0\<lparr>c_status := ns, c_actual_delivery := coalesce a (c_actual_delivery r0),
              c_updated_at := t\<rparr>"
    | "r \<in> set rows" "c_tracking_number r \<noteq> tn"
proof -
  from in_update_rows_image[OF assms] obtain r0 where r0: "r0 \<in> set rows"
    and eq: "r = (if c_tracking_number r0 = tn
          then r0\<lparr>c_status := ns, c_actual_delivery := coalesce a (c_actual_delivery r0),
                  c_updated_at := t\<rparr>
          else r0)"
    by (rule bexE)
  show thesis
  proof (cases "c_tracking_number r0 = tn")
    case True
    then have "r = r0\<lparr>c_status := ns, c_actual_delivery := coalesce a (c_actual_delivery r0),
                        c_updated_at := t\<rparr>"
      using eq by (simp only: refl if_True)
    with r0 True show ?thesis by (rule that(1))
  next
    case False
    then have "r = r0" using eq by (simp only: if_False)
    with r0 False show ?thesis by (simp add: that(2))
  qed
qed

lemma update_rows_status:
  assumes "r \<in> set (update_rows ns a t tn rows)" "c_tracking_number r = tn"
  shows "c_status r = ns"
  using assms(1)
proof (cases rule: in_update_rows)
  case (1 r0)
  then show ?thesis by simp
next
  case 2
  with assms(2) show ?thesis by simp
qed

section \<open>Lookup by tracking number\<close>

lemma known_iff: "known s tn \<longleftrightarrow> tn \<in> set (map c_tracking_number (deliveries s))"
  by (auto simp: known_def)

lemma find_unknown:
  "\<forall>r \<in> set rows. c_tracking_number r \<noteq> tn \<Longrightarrow>
     find (\<lambda>r. c_tracking_number r = tn) rows = None"
  by (simp add: find_None_iff)

lemma find_Some_known:
  "\<exists>r \<in> set rows. P r \<Longrightarrow> \<exists>r. find P rows = Some r \<and> r \<in> set rows \<and> P r"
  by (induction rows) auto

lemma get_unknown: "\<not> known s tn \<Longrightarrow> get s tn = Inr None"
  by (simp add: get_def known_def find_unknown)

lemma update_status_unknown:
  assumes "\<not> known s tn"
  shows "update_status s ev tn new_status location message = (Inr None, s)"
proof -
  have rows: "update_rows new_status a t tn (deliveries s) = deliveries s" for a t
    using assms by (simp add: update_rows_unknown known_def)
  have "s\<lparr>deliveries := deliveries s\<rparr> = s" by simp
  with rows assms show ?thesis
    by (simp add: update_status_def Let_def get_unknown)
qed

section \<open>Tracking numbers\<close>

lemma set_choices: "population \<noteq> [] \<Longrightarrow> set (choices r population k) \<subseteq> set population"
  by (auto simp: choices_def)

lemma length_choices: "length (choices r population k) = k"
  by (simp add: choices_def)

lemma create_Inr:
  assumes "create s ev a b c w co eta n = (Inr d, s')"
  shows "\<not> known s (new_tracking_number (rnd ev))
     \<and> tracking_number d = new_tracking_number (rnd ev) \<and> event_insert_ok ev"
  using assms
  by (auto simp: create_def new_delivery_def known_def Let_def log_event_def
      split: if_splits sum.splits)

section \<open>The effect of create and update_status on the store\<close>

lemma new_delivery_fields:
  "tracking_number (new_delivery ev a b c w co eta n) = new_tracking_number (rnd ev)"
  "status (new_delivery ev a b c w co eta n) = PENDING"
  "actual_delivery (new_delivery ev a b c w co eta n) = None"
  "sender (new_delivery ev a b c w co eta n) = a"
  "recipient (new_delivery ev a b c w co eta n) = b"
  "destination (new_delivery ev a b c w co eta n) = c"
  by (simp_all add: new_delivery_def Let_def)

lemma insert_values_fields:
  "c_id (insert_values rid d) = rid"
  "c_tracking_number (insert_values rid d) = tracking_number d"
  "c_status (insert_values rid d) = status_value (status d)"
  "c_actual_delivery (insert_values rid d) = actual_delivery d"
  "c_sender (insert_values rid d) = sender d"
  "c_recipient (insert_values rid d) = recipient d"
  "c_destination (insert_values rid d) = destination d"
  by (simp_all add: insert_values_def)

lemma create_known:
  "known s (new_tracking_number (rnd ev)) \<Longrightarrow> create s ev a b c w co eta n = (Inl IntegrityError, s)"
  by (simp add: create_def known_def Let_def new_delivery_fields)

lemma create_fresh_fault:
  assumes "\<not> known s (new_tracking_number (rnd ev))" "\<not> event_insert_ok ev"
  shows "create s ev a b c w co eta n =
     (Inl OperationalError,
      s\<lparr>deliveries := deliveries s @
           [insert_values (next_rowid (seq_deliveries s) (map c_id (deliveries s)))
              (new_delivery ev a b c w co eta n)],
        seq_deliveries := next_rowid (seq_deliveries s) (map c_id (deliveries s))\<rparr>)"
  using assms
  by (simp add: create_def known_def Let_def new_delivery_fields log_event_def)

lemma create_fresh_ok:
  assumes "\<not> known s (new_tracking_number (rnd ev))" "event_insert_ok ev"
  shows "create s ev a b c w co eta n =
     (Inr ((new_delivery ev a b c w co eta n)
             \<lparr>id' := Some (next_rowid (seq_deliveries s) (map c_id (deliveries s)))\<rparr>),
      s\<lparr>deliveries := deliveries s @
           [insert_values (next_rowid (seq_deliveries s) (map c_id (deliveries s)))
              (new_delivery ev a b c w co eta n)],
        seq_deliveries := next_rowid (seq_deliveries s) (map c_id (deliveries s)),
        tracking_events := tracking_events s @
           [creation_event s ev (next_rowid (seq_deliveries s) (map c_id (deliveries s)))],
        seq_tracking_events := next_rowid (seq_tracking_events s) (map e_id (tracking_events s))\<rparr>)"
  using assms
  by (simp add: create_def known_def Let_def new_delivery_fields log_event_def creation_event_def)

lemma deliveries_create:
  "deliveries (snd (create s ev a b c w co eta n)) =
     (if known s (new_tracking_number (rnd ev)) then deliveries s
      else deliveries s @
           [insert_values (next_rowid (seq_deliveries s) (map c_id (deliveries s)))
              (new_delivery ev a b c w co eta n)])"
proof (cases "known s (new_tracking_number (rnd ev))")
  case True
  then show ?thesis by (simp add: create_known)
next
  case False
  then show ?thesis
    by (cases "event_insert_ok ev") (simp_all add: create_fresh_ok create_fresh_fault)
qed

lemma tracking_events_create:
  "tracking_events (snd (create s ev a b c w co eta n)) =
     (if known s (new_tracking_number (rnd ev)) \<or> \<not> event_insert_ok ev then tracking_events s
      else tracking_events s @
           [creation_event s ev (next_rowid (seq_deliveries s) (map c_id (deliveries s)))])"
proof (cases "known s (new_tracking_number (rnd ev))")
  case True
  then show ?thesis by (simp add: create_known)
next
  case False
  then show ?thesis
    by (cases "event_insert_ok ev") (simp_all add: create_fresh_ok create_fresh_fault)
qed

lemma update_status_after_update:
  "update_status s ev tn ns loc msg =
     (case get (after_update s ev tn ns) tn of
        Inl e \<Rightarrow> (Inl e, after_update s ev tn ns)
      | Inr None \<Rightarrow> (Inr None, after_update s ev tn ns)
      | Inr (Some d) \<Rightarrow>
          (case log_event (after_update s ev tn ns) ev (id' d) ns loc msg of
             Inl e \<Rightarrow> (Inl e, after_update s ev tn ns)
           | Inr s2 \<Rightarrow> (Inr (Some d), s2)))"
  by (cases "ns = ''delivered''")
     (simp_all add: update_status_def Let_def after_update_def actual_for_def
        cong: sum.case_cong option.case_cong)

lemma deliveries_log_event:
  "log_event s ev i st loc msg = Inr s2 \<Longrightarrow> deliveries s2 = deliveries s"
  by (auto simp: log_event_def Let_def split: option.splits if_splits)

lemma log_event_Inr:
  "log_event s ev i st loc msg = Inr s2 \<Longrightarrow>
     \<exists>did. i = Some did \<and> event_insert_ok ev \<and>
       tracking_events s2 = tracking_events s @ [status_event s ev did st loc msg]"
  by (auto simp: log_event_def Let_def status_event_def split: option.splits if_splits)

lemma deliveries_update_status:
  "deliveries (snd (update_status s ev tn ns loc msg)) =
     update_rows ns (actual_for ev ns) (now_op ev) tn (deliveries s)"
  by (auto simp: update_status_after_update after_update_def
      split: sum.splits option.splits dest: deliveries_log_event)

section \<open>Events refer to stored Shipments\<close>

lemma le_foldr_max: "i \<in> set ids \<Longrightarrow> i \<le> foldr max ids (sq::nat)"
  by (induction ids) auto

lemma next_rowid_fresh: "next_rowid sq ids \<notin> set ids"
  using le_foldr_max[of "next_rowid sq ids" ids sq] by (auto simp: next_rowid_def)

lemma events_have_parent_iff:
  "events_have_parent s \<longleftrightarrow>
     (\<forall>e \<in> set (tracking_events s). e_delivery_id e \<in> set (map c_id (deliveries s)))"
  unfolding events_have_parent_def by (simp add: image_iff) metis

lemma get_Some:
  assumes "get s tn = Inr (Some d)"
  shows "\<exists>row. find (\<lambda>r. c_tracking_number r = tn) (deliveries s) = Some row
           \<and> row \<in> set (deliveries s) \<and> c_tracking_number row = tn
           \<and> row_to_delivery row = Inr d"
proof (cases "find (\<lambda>r. c_tracking_number r = tn) (deliveries s)")
  case None
  with assms show ?thesis by (simp add: get_def)
next
  case (Some row)
  then have "row \<in> set (deliveries s)" "c_tracking_number row = tn"
    by (auto simp: find_Some_iff in_set_conv_nth)
  moreover from assms Some have "row_to_delivery row = Inr d"
    by (simp add: get_def split: sum.splits)
  ultimately show ?thesis using Some by simp
qed

lemma status_event_after_update [simp]:
  "status_event (after_update s ev tn ns) ev' did st loc msg = status_event s ev' did st loc msg"
  by (simp add: status_event_def after_update_def)

lemma tracking_events_after_update [simp]:
  "tracking_events (after_update s ev tn ns) = tracking_events s"
  by (simp add: after_update_def)

lemma tracking_events_update_status:
  "tracking_events (snd (update_status s ev tn ns loc msg)) = tracking_events s
   \<or> (\<exists>did \<in> set (map c_id (deliveries s)).
         tracking_events (snd (update_status s ev tn ns loc msg))
           = tracking_events s @ [status_event s ev did ns loc msg])"
proof (cases "get (after_update s ev tn ns) tn")
  case (Inl e)
  then show ?thesis by (simp add: update_status_after_update after_update_def)
next
  case (Inr od)
  show ?thesis
  proof (cases od)
    case None
    with Inr show ?thesis by (simp add: update_status_after_update after_update_def)
  next
    case (Some d)
    with Inr obtain row where row: "row \<in> set (deliveries (after_update s ev tn ns))"
      "row_to_delivery row = Inr d"
      using get_Some[of "after_update s ev tn ns" tn d] by auto
    then have idd: "id' d = Some (c_id row)" using row_to_delivery_fields by blast
    have "c_id row \<in> set (map c_id (deliveries (after_update s ev tn ns)))"
      using row(1) by simp
    also have "map c_id (deliveries (after_update s ev tn ns)) = map c_id (deliveries s)"
      by (simp add: after_update_def map_id_update_rows)
    finally have mem: "c_id row \<in> set (map c_id (deliveries s))" .
    show ?thesis
    proof (cases "log_event (after_update s ev tn ns) ev (id' d) ns loc msg")
      case (Inl e)
      with Inr Some show ?thesis by (simp add: update_status_after_update after_update_def)
    next
      case r: (Inr s2)
      from log_event_Inr[OF r] idd
      have "tracking_events s2 = tracking_events s @ [status_event s ev (c_id row) ns loc msg]"
        by simp
      with Inr Some r mem show ?thesis by (auto simp: update_status_after_update)
    qed
  qed
qed

lemma events_have_parent_create:
  assumes "events_have_parent s"
  shows "events_have_parent (snd (create s ev a b c w co eta n))"
  using assms
  by (auto simp: events_have_parent_iff deliveries_create tracking_events_create
      creation_event_def insert_values_fields)

lemma events_have_parent_update_status:
  assumes "events_have_parent s"
  shows "events_have_parent (snd (update_status s ev tn ns loc msg))"
proof -
  have d: "map c_id (deliveries (snd (update_status s ev tn ns loc msg))) = map c_id (deliveries s)"
    by (simp add: deliveries_update_status map_id_update_rows)
  from tracking_events_update_status[of s ev tn ns loc msg] show ?thesis
  proof
    assume "tracking_events (snd (update_status s ev tn ns loc msg)) = tracking_events s"
    with assms d show ?thesis by (simp add: events_have_parent_iff)
  next
    assume "\<exists>did \<in> set (map c_id (deliveries s)).
         tracking_events (snd (update_status s ev tn ns loc msg))
           = tracking_events s @ [status_event s ev did ns loc msg]"
    then obtain did where "did \<in> set (map c_id (deliveries s))"
      "tracking_events (snd (update_status s ev tn ns loc msg))
           = tracking_events s @ [status_event s ev did ns loc msg]" by blast
    with assms d show ?thesis by (auto simp: events_have_parent_iff status_event_def)
  qed
qed

lemma events_have_parent_step: "events_have_parent s \<Longrightarrow> events_have_parent (step s x)"
  by (cases x) (simp_all add: events_have_parent_create events_have_parent_update_status)

lemma events_have_parent_run: "events_have_parent s \<Longrightarrow> events_have_parent (run s ops)"
  by (induction ops arbitrary: s) (simp_all add: events_have_parent_step)

lemma events_have_parent_init: "events_have_parent init_db"
  by (simp add: events_have_parent_def init_db_def)

section \<open>The history after create and update_status\<close>

lemma or_empty_id [simp]: "or_empty x = x"
  by (simp add: or_empty_def)

lemma row_to_delivery_insert_values:
  "row_to_delivery (insert_values rid d) = Inr (d\<lparr>id' := Some rid\<rparr>)"
  by (simp add: row_to_delivery_def insert_values_def DeliveryStatus_of_value)

lemma find_snoc_fresh:
  "\<forall>x \<in> set xs. \<not> P x \<Longrightarrow> P y \<Longrightarrow> find P (xs @ [y]) = Some y"
  by (induction xs) simp_all

lemma get_deliveries_cong: "deliveries s = deliveries s' \<Longrightarrow> get s tn = get s' tn"
  by (simp add: get_def)

lemma find_update_rows:
  "find (\<lambda>r. c_tracking_number r = tn) (update_rows ns a t tn rows) =
     map_option (\<lambda>r. r\<lparr>c_status := ns, c_actual_delivery := coalesce a (c_actual_delivery r),
                        c_updated_at := t\<rparr>)
       (find (\<lambda>r. c_tracking_number r = tn) rows)"
  by (induction rows) (simp_all add: update_rows_def)

lemma create_history:
  assumes inv: "events_have_parent s"
    and cr: "create s ev a b c w co eta n = (Inr d, s')"
  shows "history s' (tracking_number d)
           = Inr [creation_event s ev (next_rowid (seq_deliveries s) (map c_id (deliveries s)))]
         \<and> id' d = Some (next_rowid (seq_deliveries s) (map c_id (deliveries s)))
         \<and> get s' (tracking_number d) = Inr (Some d)"
proof -
  let ?rid = "next_rowid (seq_deliveries s) (map c_id (deliveries s))"
  let ?d0 = "new_delivery ev a b c w co eta n"
  from create_Inr[OF cr] have fresh: "\<not> known s (new_tracking_number (rnd ev))"
    and ok: "event_insert_ok ev" and tn: "tracking_number d = new_tracking_number (rnd ev)"
    by simp_all
  from create_fresh_ok[OF fresh ok, of a b c w co eta n] cr
  have d: "d = ?d0\<lparr>id' := Some ?rid\<rparr>"
    and ds: "deliveries s' = deliveries s @ [insert_values ?rid ?d0]"
    and es: "tracking_events s' = tracking_events s @ [creation_event s ev ?rid]"
    by auto
  have "find (\<lambda>r. c_tracking_number r = tracking_number d) (deliveries s')
          = Some (insert_values ?rid ?d0)"
    unfolding ds using fresh tn
    by (intro find_snoc_fresh) (auto simp: known_def insert_values_fields new_delivery_fields)
  then have g: "get s' (tracking_number d) = Inr (Some d)"
    by (simp add: get_def row_to_delivery_insert_values d)
  have idd: "id' d = Some ?rid" by (simp add: d)
  have "e_delivery_id e \<noteq> ?rid" if "e \<in> set (tracking_events s)" for e
  proof -
    from inv that have "e_delivery_id e \<in> set (map c_id (deliveries s))"
      by (simp add: events_have_parent_iff)
    then show ?thesis using next_rowid_fresh[of "seq_deliveries s" "map c_id (deliveries s)"]
      by metis
  qed
  then have "filter (\<lambda>e. Some (e_delivery_id e) = Some ?rid) (tracking_events s) = []"
    by (simp add: filter_empty_conv)
  then have "filter (\<lambda>e. Some (e_delivery_id e) = id' d) (tracking_events s')
               = [creation_event s ev ?rid]"
    by (simp add: es idd creation_event_def)
  then have "history s' (tracking_number d) = Inr [creation_event s ev ?rid]"
    by (simp add: history_def g)
  with idd g show ?thesis by simp
qed

lemma update_status_Some:
  assumes "update_status s ev tn ns loc msg = (Inr (Some d), s')"
  shows "\<exists>row did. find (\<lambda>r. c_tracking_number r = tn) (deliveries s) = Some row
           \<and> did = c_id row \<and> id' d = Some did
           \<and> get s' tn = Inr (Some d)
           \<and> tracking_events s' = tracking_events s @ [status_event s ev did ns loc msg]"
proof -
  let ?s1 = "after_update s ev tn ns"
  from assms have g: "get ?s1 tn = Inr (Some d)"
    by (auto simp: update_status_after_update split: sum.splits option.splits)
  with assms have le: "log_event ?s1 ev (id' d) ns loc msg = Inr s'"
    by (auto simp: update_status_after_update split: sum.splits)
  from get_Some[OF g] obtain row1 where
    f1: "find (\<lambda>r. c_tracking_number r = tn) (deliveries ?s1) = Some row1"
    and rd: "row_to_delivery row1 = Inr d" by blast
  from f1 obtain row where f: "find (\<lambda>r. c_tracking_number r = tn) (deliveries s) = Some row"
    and r1: "c_id row1 = c_id row"
    by (auto simp: after_update_def find_update_rows)
  have idd: "id' d = Some (c_id row)" using row_to_delivery_fields[OF rd] r1 by simp
  from log_event_Inr[OF le] idd
  have es: "tracking_events s' = tracking_events s @ [status_event s ev (c_id row) ns loc msg]"
    by simp
  have "get s' tn = get ?s1 tn"
    by (rule get_deliveries_cong) (rule deliveries_log_event[OF le])
  with g f idd es show ?thesis by simp
qed

lemma update_status_history:
  assumes up: "update_status s ev tn ns loc msg = (Inr (Some d), s')"
  shows "\<exists>evs' e. history s' tn = Inr evs'
           \<and> e_status e = ns \<and> e_location e = loc \<and> e_message e = msg
           \<and> Some (e_delivery_id e) = id' d
           \<and> (\<forall>evs. history s tn = Inr evs \<longrightarrow>
                 length evs' = length evs + 1 \<and> mset evs' = add_mset e (mset evs))"
proof -
  from update_status_Some[OF up] obtain row where
    f: "find (\<lambda>r. c_tracking_number r = tn) (deliveries s) = Some row"
    and idd: "id' d = Some (c_id row)"
    and g: "get s' tn = Inr (Some d)"
    and es: "tracking_events s' = tracking_events s @ [status_event s ev (c_id row) ns loc msg]"
    by blast
  let ?e = "status_event s ev (c_id row) ns loc msg"
  let ?old = "filter (\<lambda>e. e_delivery_id e = c_id row) (tracking_events s)"
  have h': "history s' tn = Inr (sort_key e_timestamp (?old @ [?e]))"
    by (simp add: history_def g es idd status_event_def)
  have h: "evs = sort_key e_timestamp ?old" if "history s tn = Inr evs" for evs
  proof -
    from that f obtain d0 where "row_to_delivery row = Inr d0"
      and "evs = sort_key e_timestamp (filter (\<lambda>e. Some (e_delivery_id e) = id' d0) (tracking_events s))"
      by (auto simp: history_def get_def split: sum.splits)
    then show ?thesis using row_to_delivery_fields[of row d0] by simp
  qed
  have "length (sort_key e_timestamp (?old @ [?e])) = length evs + 1
        \<and> mset (sort_key e_timestamp (?old @ [?e])) = add_mset ?e (mset evs)"
    if "history s tn = Inr evs" for evs
    using h[OF that] by simp
  with h' idd show ?thesis
    by (intro exI[of _ "sort_key e_timestamp (?old @ [?e])"] exI[of _ ?e])
       (simp add: status_event_def)
qed

section \<open>Shipments that were ever Delivered\<close>

lemma run_snoc: "run s (ops @ [x]) = step (run s ops) x"
  by (induction ops arbitrary: s) simp_all

lemma trace_snoc: "trace s (ops @ [x]) = trace s ops @ [step (run s ops) x]"
  by (induction ops arbitrary: s) simp_all

lemma run_in_trace: "run s ops \<in> set (trace s ops)"
  by (induction ops arbitrary: s) simp_all

lemma ever_delivered_snoc:
  "ever_delivered s (ops @ [x]) tn \<longleftrightarrow>
     ever_delivered s ops tn \<or> delivered_in (step (run s ops) x) tn"
  by (auto simp: ever_delivered_def trace_snoc)

lemma delivered_in_ever: "delivered_in (run s ops) tn \<Longrightarrow> ever_delivered s ops tn"
  using run_in_trace[of s ops] by (auto simp: ever_delivered_def)

lemma status_value_inj: "status_value m = status_value m' \<Longrightarrow> m = m'"
  by (cases m; cases m') simp_all

lemma in_update_rows_fields:
  assumes "r \<in> set (update_rows ns a t tn rows)"
  shows "(c_tracking_number r = tn \<and> c_status r = ns
            \<and> (\<exists>r0 \<in> set rows. c_tracking_number r0 = tn
                  \<and> c_actual_delivery r = coalesce a (c_actual_delivery r0)))
         \<or> (c_tracking_number r \<noteq> tn \<and> r \<in> set rows)"
  using assms
proof (cases rule: in_update_rows)
  case (1 r0)
  then have "c_tracking_number r = tn" "c_status r = ns"
    "c_actual_delivery r = coalesce a (c_actual_delivery r0)" by simp_all
  with 1(1,2) show ?thesis by blast
next
  case 2
  then show ?thesis by simp
qed

lemma update_rows_keeps_others:
  "r \<in> set rows \<Longrightarrow> c_tracking_number r \<noteq> tn \<Longrightarrow> r \<in> set (update_rows ns a t tn rows)"
  by (induction rows) (auto simp: update_rows_def)

lemma update_rows_known:
  assumes "r0 \<in> set rows" "c_tracking_number r0 = tn"
  shows "\<exists>r \<in> set (update_rows ns a t tn rows). c_tracking_number r = tn \<and> c_status r = ns"
proof -
  from assms have "tn \<in> set (map c_tracking_number rows)" by force
  then have "tn \<in> set (map c_tracking_number (update_rows ns a t tn rows))"
    by (simp only: map_tn_update_rows)
  then obtain r where "r \<in> set (update_rows ns a t tn rows)" "c_tracking_number r = tn"
    by auto
  then show ?thesis using update_rows_status by blast
qed

lemma delivered_in_create:
  "delivered_in (snd (create s ev a b c w co eta n)) tn \<longleftrightarrow> delivered_in s tn"
  by (auto simp: delivered_in_def deliveries_create insert_values_fields new_delivery_fields)

lemma known_create:
  "known s tn \<Longrightarrow> known (snd (create s ev a b c w co eta n)) tn"
  by (auto simp: known_def deliveries_create)

lemma known_update_status:
  "known (snd (update_status s ev tn0 ns loc msg)) tn \<longleftrightarrow> known s tn"
  by (simp add: known_iff deliveries_update_status map_tn_update_rows)

lemma delivered_in_update_status:
  "delivered_in (snd (update_status s ev tn0 ns loc msg)) tn \<longleftrightarrow>
     (if tn = tn0 then known s tn0 \<and> ns = ''delivered'' else delivered_in s tn)"
proof (cases "tn = tn0")
  case True
  show ?thesis
  proof
    assume "delivered_in (snd (update_status s ev tn0 ns loc msg)) tn"
    then obtain r where r: "r \<in> set (update_rows ns (actual_for ev ns) (now_op ev) tn0 (deliveries s))"
      "c_tracking_number r = tn0" "c_status r = ''delivered''"
      using True by (auto simp: delivered_in_def deliveries_update_status)
    from in_update_rows_fields[OF r(1)] r(2,3)
    have "ns = ''delivered''" "\<exists>r0 \<in> set (deliveries s). c_tracking_number r0 = tn0" by auto
    then show "if tn = tn0 then known s tn0 \<and> ns = ''delivered'' else delivered_in s tn"
      using True by (simp add: known_def)
  next
    assume "if tn = tn0 then known s tn0 \<and> ns = ''delivered'' else delivered_in s tn"
    with True obtain r0 where "r0 \<in> set (deliveries s)" "c_tracking_number r0 = tn0"
      and ns: "ns = ''delivered''" by (auto simp: known_def)
    from update_rows_known[OF this(1,2), of ns "actual_for ev ns" "now_op ev"] ns True
    show "delivered_in (snd (update_status s ev tn0 ns loc msg)) tn"
      by (simp add: delivered_in_def deliveries_update_status)
  qed
next
  case False
  show ?thesis
  proof
    assume "delivered_in (snd (update_status s ev tn0 ns loc msg)) tn"
    then obtain r where r: "r \<in> set (update_rows ns (actual_for ev ns) (now_op ev) tn0 (deliveries s))"
      "c_tracking_number r = tn" "c_status r = ''delivered''"
      by (auto simp: delivered_in_def deliveries_update_status)
    from in_update_rows_fields[OF r(1)] r(2) False have "r \<in> set (deliveries s)" by auto
    with r(2,3) False show "if tn = tn0 then known s tn0 \<and> ns = ''delivered'' else delivered_in s tn"
      by (auto simp: delivered_in_def)
  next
    assume "if tn = tn0 then known s tn0 \<and> ns = ''delivered'' else delivered_in s tn"
    with False obtain r where r: "r \<in> set (deliveries s)" "c_tracking_number r = tn"
      "c_status r = ''delivered''" by (auto simp: delivered_in_def)
    with False have "r \<in> set (update_rows ns (actual_for ev ns) (now_op ev) tn0 (deliveries s))"
      by (intro update_rows_keeps_others) simp_all
    with r(2,3) show "delivered_in (snd (update_status s ev tn0 ns loc msg)) tn"
      by (auto simp: delivered_in_def deliveries_update_status)
  qed
qed

lemma actual_inv_create:
  assumes "actual_inv s E"
  shows "actual_inv (snd (create s ev a b c w co eta n))
           (\<lambda>tn. E tn \<or> delivered_in (snd (create s ev a b c w co eta n)) tn)"
proof -
  let ?s' = "snd (create s ev a b c w co eta n)"
  from assms have I: "\<And>r. r \<in> set (deliveries s) \<Longrightarrow> (c_actual_delivery r \<noteq> None) = E (c_tracking_number r)"
    and K: "\<And>tn. E tn \<Longrightarrow> known s tn" and D: "\<And>tn. delivered_in s tn \<Longrightarrow> E tn"
    by (auto simp: actual_inv_def)
  have E': "(E tn \<or> delivered_in ?s' tn) = E tn" for tn
    using D[of tn] by (auto simp: delivered_in_create)
  have "(c_actual_delivery r \<noteq> None) = E (c_tracking_number r)" if "r \<in> set (deliveries ?s')" for r
  proof (cases "r \<in> set (deliveries s)")
    case True
    then show ?thesis by (rule I)
  next
    case False
    with that have fresh: "\<not> known s (new_tracking_number (rnd ev))"
      and r: "r = insert_values (next_rowid (seq_deliveries s) (map c_id (deliveries s)))
                   (new_delivery ev a b c w co eta n)"
      by (auto simp: deliveries_create split: if_splits)
    from r have "c_actual_delivery r = None" "c_tracking_number r = new_tracking_number (rnd ev)"
      by (simp_all add: insert_values_fields new_delivery_fields)
    with fresh K show ?thesis by auto
  qed
  moreover have "known ?s' tn" if "E tn" for tn using K[OF that] by (rule known_create)
  ultimately show ?thesis unfolding actual_inv_def E' using D
    by (auto simp: delivered_in_create)
qed

lemma actual_inv_update_status:
  assumes "actual_inv s E"
  shows "actual_inv (snd (update_status s ev tn0 ns loc msg))
           (\<lambda>tn. E tn \<or> delivered_in (snd (update_status s ev tn0 ns loc msg)) tn)"
proof -
  let ?s' = "snd (update_status s ev tn0 ns loc msg)"
  from assms have I: "\<And>r. r \<in> set (deliveries s) \<Longrightarrow> (c_actual_delivery r \<noteq> None) = E (c_tracking_number r)"
    and K: "\<And>tn. E tn \<Longrightarrow> known s tn" and D: "\<And>tn. delivered_in s tn \<Longrightarrow> E tn"
    by (auto simp: actual_inv_def)
  have "(c_actual_delivery r \<noteq> None) = (E (c_tracking_number r) \<or> delivered_in ?s' (c_tracking_number r))"
    if "r \<in> set (deliveries ?s')" for r
  proof -
    from that have "r \<in> set (update_rows ns (actual_for ev ns) (now_op ev) tn0 (deliveries s))"
      by (simp add: deliveries_update_status)
    from in_update_rows_fields[OF this] show ?thesis
    proof
      assume "c_tracking_number r = tn0 \<and> c_status r = ns
            \<and> (\<exists>r0 \<in> set (deliveries s). c_tracking_number r0 = tn0
                  \<and> c_actual_delivery r = coalesce (actual_for ev ns) (c_actual_delivery r0))"
      then obtain r0 where tn: "c_tracking_number r = tn0" and r0: "r0 \<in> set (deliveries s)"
        "c_tracking_number r0 = tn0"
        "c_actual_delivery r = coalesce (actual_for ev ns) (c_actual_delivery r0)" by blast
      have kn: "known s tn0" using r0(1,2) by (auto simp: known_def)
      show ?thesis
      proof (cases "ns = ''delivered''")
        case True
        then have "c_actual_delivery r \<noteq> None" using r0(3) by (simp add: actual_for_def coalesce_def)
        moreover have "delivered_in ?s' tn0" using True kn by (simp add: delivered_in_update_status)
        ultimately show ?thesis using tn by simp
      next
        case False
        then have "c_actual_delivery r = c_actual_delivery r0"
          using r0(3) by (simp add: actual_for_def coalesce_def)
        moreover have "\<not> delivered_in ?s' tn0" using False by (simp add: delivered_in_update_status)
        ultimately show ?thesis using tn I[OF r0(1)] r0(2) by simp
      qed
    next
      assume "c_tracking_number r \<noteq> tn0 \<and> r \<in> set (deliveries s)"
      then have ne: "c_tracking_number r \<noteq> tn0" and r: "r \<in> set (deliveries s)" by simp_all
      have "delivered_in ?s' (c_tracking_number r) = delivered_in s (c_tracking_number r)"
        using ne by (simp add: delivered_in_update_status)
      then show ?thesis using I[OF r] D[of "c_tracking_number r"] by auto
    qed
  qed
  moreover have "known ?s' tn" if "E tn \<or> delivered_in ?s' tn" for tn
  proof (cases "E tn")
    case True
    then show ?thesis using K[of tn] by (simp add: known_update_status)
  next
    case False
    with that have "delivered_in ?s' tn" by simp
    then show ?thesis by (auto simp: delivered_in_def known_def)
  qed
  ultimately show ?thesis unfolding actual_inv_def by blast
qed

lemma actual_inv_step:
  "actual_inv s E \<Longrightarrow> actual_inv (step s x) (\<lambda>tn. E tn \<or> delivered_in (step s x) tn)"
  by (cases x) (simp_all add: actual_inv_create actual_inv_update_status)

lemma actual_inv_init: "actual_inv init_db (ever_delivered init_db [])"
  by (simp add: actual_inv_def ever_delivered_def delivered_in_def init_db_def)

lemma actual_inv_run: "actual_inv (run init_db ops) (ever_delivered init_db ops)"
proof (induction ops rule: rev_induct)
  case Nil
  show ?case using actual_inv_init by simp
next
  case (snoc x ops)
  have "ever_delivered init_db (ops @ [x])
          = (\<lambda>tn. ever_delivered init_db ops tn \<or> delivered_in (step (run init_db ops) x) tn)"
    by (rule ext) (simp add: ever_delivered_snoc)
  with actual_inv_step[OF snoc.IH, of x] show ?case by (simp add: run_snoc)
qed

lemma update_status_delivered_get:
  assumes "known s tn"
  shows "\<exists>d. get (snd (update_status s ev tn ''delivered'' loc msg)) tn = Inr (Some d)
           \<and> actual_delivery d = Some (now_op ev) \<and> status d = DELIVERED"
proof -
  let ?s' = "snd (update_status s ev tn ''delivered'' loc msg)"
  from assms obtain row0 where f0: "find (\<lambda>r. c_tracking_number r = tn) (deliveries s) = Some row0"
    unfolding known_def using find_Some_known[of "deliveries s" "\<lambda>r. c_tracking_number r = tn"] by blast
  define row where "row = row0\<lparr>c_status := ''delivered'',
       c_actual_delivery := coalesce (Some (now_op ev)) (c_actual_delivery row0),
       c_updated_at := now_op ev\<rparr>"
  have f: "find (\<lambda>r. c_tracking_number r = tn) (deliveries ?s') = Some row"
    by (simp add: deliveries_update_status find_update_rows f0 row_def actual_for_def)
  have st: "c_status row = status_value DELIVERED" and ad: "c_actual_delivery row = Some (now_op ev)"
    by (simp_all add: row_def coalesce_def)
  have "declared (c_status row)" unfolding st by (simp add: declared_def all_statuses_def)
  then obtain d where d: "row_to_delivery row = Inr d" using row_to_delivery_declared by blast
  from row_to_delivery_fields[OF d] st ad
  have "actual_delivery d = Some (now_op ev)" "status_value (status d) = status_value DELIVERED"
    by simp_all
  then have "actual_delivery d = Some (now_op ev)" "status d = DELIVERED"
    by (simp_all only: status_value_inj[of "status d" DELIVERED])
  moreover have "get ?s' tn = Inr (Some d)" using f d by (simp add: get_def)
  ultimately show ?thesis by blast
qed

lemma update_status_keeps_actual:
  assumes "ns \<noteq> ''delivered''"
  shows "map c_actual_delivery (deliveries (snd (update_status s ev tn ns loc msg)))
           = map c_actual_delivery (deliveries s)"
proof -
  have "map c_actual_delivery (update_rows ns None t tn rows) = map c_actual_delivery rows" for t rows
    by (induction rows) (simp_all add: update_rows_def coalesce_def)
  with assms show ?thesis by (simp add: deliveries_update_status actual_for_def)
qed

section \<open>Creation events\<close>

lemma has_creation_event_mono:
  assumes "has_creation_event s r" "c_id r' = c_id r"
    "set (tracking_events s) \<subseteq> set (tracking_events s')"
  shows "has_creation_event s' r'"
  using assms unfolding has_creation_event_def by (metis subsetD)

lemma all_created_create:
  assumes ok: "event_insert_ok ev" and inv: "all_created s"
  shows "all_created (snd (create s ev a b c w co eta n))"
proof (cases "known s (new_tracking_number (rnd ev))")
  case True
  with inv show ?thesis by (simp add: create_known)
next
  case False
  let ?s' = "snd (create s ev a b c w co eta n)"
  let ?rid = "next_rowid (seq_deliveries s) (map c_id (deliveries s))"
  have ds: "deliveries ?s' = deliveries s @ [insert_values ?rid (new_delivery ev a b c w co eta n)]"
    and es: "tracking_events ?s' = tracking_events s @ [creation_event s ev ?rid]"
    using False ok by (simp_all add: deliveries_create tracking_events_create)
  have "has_creation_event ?s' r" if "r \<in> set (deliveries ?s')" for r
  proof (cases "r \<in> set (deliveries s)")
    case True
    with inv have "has_creation_event s r" by (simp add: all_created_def)
    then show ?thesis by (rule has_creation_event_mono) (auto simp: es)
  next
    case False
    with that ds have "c_id r = ?rid" by (auto simp: insert_values_fields)
    then show ?thesis by (simp add: has_creation_event_def es creation_event_def)
  qed
  then show ?thesis by (simp add: all_created_def)
qed

lemma all_created_update_status:
  assumes inv: "all_created s"
  shows "all_created (snd (update_status s ev tn ns loc msg))"
proof -
  let ?s' = "snd (update_status s ev tn ns loc msg)"
  have sub: "set (tracking_events s) \<subseteq> set (tracking_events ?s')"
    using tracking_events_update_status[of s ev tn ns loc msg] by auto
  have "has_creation_event ?s' r'" if "r' \<in> set (deliveries ?s')" for r'
  proof -
    from that have "c_id r' \<in> set (map c_id (deliveries ?s'))" by simp
    then have "c_id r' \<in> set (map c_id (deliveries s))"
      by (simp only: deliveries_update_status map_id_update_rows)
    then obtain r where r: "r \<in> set (deliveries s)" "c_id r' = c_id r" by auto
    with inv have "has_creation_event s r" by (simp add: all_created_def)
    then show ?thesis using r(2) sub by (rule has_creation_event_mono)
  qed
  then show ?thesis by (simp add: all_created_def)
qed

lemma all_created_run: "no_fault ops \<Longrightarrow> all_created s \<Longrightarrow> all_created (run s ops)"
proof (induction ops arbitrary: s)
  case Nil
  then show ?case by simp
next
  case (Cons x ops)
  from Cons.prems have ok: "event_insert_ok (op_env x)" and nf: "no_fault ops"
    by (simp_all add: no_fault_def)
  have "all_created (step s x)"
    using ok Cons.prems(2) by (cases x) (simp_all add: all_created_create all_created_update_status)
  with Cons.IH[OF nf] show ?case by simp
qed

lemma all_created_init: "all_created init_db"
  by (simp add: all_created_def init_db_def)

lemma create_fault_orphan:
  assumes fresh: "\<not> known s (new_tracking_number (rnd ev))" and fault: "\<not> event_insert_ok ev"
    and inv: "events_have_parent s"
  shows "\<exists>row. fst (create s ev a b c w co eta n) = Inl OperationalError
           \<and> deliveries (snd (create s ev a b c w co eta n)) = deliveries s @ [row]
           \<and> c_tracking_number row = new_tracking_number (rnd ev)
           \<and> tracking_events (snd (create s ev a b c w co eta n)) = tracking_events s
           \<and> \<not> has_creation_event (snd (create s ev a b c w co eta n)) row"
proof -
  let ?rid = "next_rowid (seq_deliveries s) (map c_id (deliveries s))"
  let ?row = "insert_values ?rid (new_delivery ev a b c w co eta n)"
  let ?s' = "snd (create s ev a b c w co eta n)"
  have r: "fst (create s ev a b c w co eta n) = Inl OperationalError"
    using fresh fault by (simp add: create_fresh_fault)
  have ds: "deliveries ?s' = deliveries s @ [?row]" using fresh by (simp add: deliveries_create)
  have es: "tracking_events ?s' = tracking_events s" using fault by (simp add: tracking_events_create)
  have "e_delivery_id e \<noteq> ?rid" if "e \<in> set (tracking_events s)" for e
  proof -
    from inv that have "e_delivery_id e \<in> set (map c_id (deliveries s))"
      by (simp add: events_have_parent_iff)
    then show ?thesis using next_rowid_fresh[of "seq_deliveries s" "map c_id (deliveries s)"]
      by metis
  qed
  then have "\<not> has_creation_event ?s' ?row"
    by (auto simp: has_creation_event_def es insert_values_fields)
  with r ds es show ?thesis
    by (intro exI[of _ ?row]) (simp add: insert_values_fields new_delivery_fields)
qed

section \<open>The event log after successful calls\<close>








section \<open>The logged statuses and the statuses written\<close>

lemma create_events:
  assumes cr: "create s ev a b c w co eta n = (Inr d, s')"
  shows "tracking_events s'
           = tracking_events s @ [creation_event s ev (next_rowid (seq_deliveries s) (map c_id (deliveries s)))]
         \<and> deliveries s'
           = deliveries s @ [insert_values (next_rowid (seq_deliveries s) (map c_id (deliveries s)))
                               (new_delivery ev a b c w co eta n)]
         \<and> d = (new_delivery ev a b c w co eta n)
                  \<lparr>id' := Some (next_rowid (seq_deliveries s) (map c_id (deliveries s)))\<rparr>"
proof -
  from create_Inr[OF cr] have fresh: "\<not> known s (new_tracking_number (rnd ev))"
    and ok: "event_insert_ok ev" by simp_all
  from create_fresh_ok[OF fresh ok, of a b c w co eta n] cr show ?thesis by auto
qed




lemma create_get:
  assumes cr: "create s ev a b c w co eta n = (Inr d, s')"
  shows "get s' (tracking_number d) = Inr (Some d)"
proof -
  let ?rid = "next_rowid (seq_deliveries s) (map c_id (deliveries s))"
  let ?d0 = "new_delivery ev a b c w co eta n"
  from create_Inr[OF cr] have fresh: "\<not> known s (new_tracking_number (rnd ev))"
    and ok: "event_insert_ok ev" and tn: "tracking_number d = new_tracking_number (rnd ev)"
    by simp_all
  from create_fresh_ok[OF fresh ok, of a b c w co eta n] cr
  have d: "d = ?d0\<lparr>id' := Some ?rid\<rparr>"
    and ds: "deliveries s' = deliveries s @ [insert_values ?rid ?d0]"
    by auto
  have "find (\<lambda>r. c_tracking_number r = tracking_number d) (deliveries s')
          = Some (insert_values ?rid ?d0)"
    unfolding ds using fresh tn
    by (intro find_snoc_fresh) (auto simp: known_def insert_values_fields new_delivery_fields)
  then show ?thesis
    by (simp add: get_def row_to_delivery_insert_values d)
qed






section \<open>The claims\<close>

text \<open>
  C1, as the code has it. An \<^verbatim>\<open>update_status\<close> on a tracking number that identifies no
  stored Shipment raises nothing: it returns \<^verbatim>\<open>None\<close>, the absent result that \<^verbatim>\<open>get\<close>
  returns for the same tracking number. (The specification asks for an explicit NotFound error.)
\<close>

theorem update_status_unknown_absent:
  assumes "\<not> known s tn"
  shows "fst (update_status s ev tn new_status location message) = Inr None
         \<and> \<not> isl (fst (update_status s ev tn new_status location message))
         \<and> get s tn = Inr None"
  using assms by (simp add: update_status_unknown get_unknown)

theorem update_status_unknown_absent_witness:
  "\<not> known store_one ''BRZZZZZZZZZZ''
   \<and> fst (update_status store_one env1 ''BRZZZZZZZZZZ'' ''delivered'' ''Depot A'' []) = Inr None
   \<and> \<not> isl (fst (update_status store_one env1 ''BRZZZZZZZZZZ'' ''delivered'' ''Depot A'' []))
   \<and> get store_one ''BRZZZZZZZZZZ'' = Inr None"
proof -
  have h: "\<not> known store_one ''BRZZZZZZZZZZ''" by code_simp
  show ?thesis using h update_status_unknown_absent[OF h] by simp
qed

text \<open>C1 as stated fails: the call below is no error, it is the result \<^verbatim>\<open>None\<close>.\<close>

theorem update_status_not_found_counterexample:
  "\<not> known store_one ''BRZZZZZZZZZZ''
   \<and> \<not> isl (fst (update_status store_one env1 ''BRZZZZZZZZZZ'' ''delivered'' [] []))
   \<and> fst (update_status store_one env1 ''BRZZZZZZZZZZ'' ''delivered'' [] []) = Inr None"
  by code_simp

text \<open>
  C2, as the code has it. \<^verbatim>\<open>create\<close> does not look at its arguments: with the empty string
  for sender, recipient or destination it proceeds as for any other value. When the
  generated tracking number is free and the event INSERT is accepted, it returns the
  Shipment and has stored it: one row is added, which decodes to the returned Delivery, and
  one event is added, the creation event of that row; \<^verbatim>\<open>get\<close> finds the Shipment, and (in a
  store where every event refers to a stored Shipment) its history is that one event.
  (The specification asks for a ValidationError and an unchanged store.)
\<close>

theorem create_accepts_empty_fields:
  assumes "a = [] \<or> b = [] \<or> c = []"
    and fresh: "\<not> known s (new_tracking_number (rnd ev))" and ok: "event_insert_ok ev"
  shows "\<exists>d s' row e. create s ev a b c w co eta n = (Inr d, s')
     \<and> sender d = a \<and> recipient d = b \<and> destination d = c
     \<and> deliveries s' = deliveries s @ [row]
     \<and> row_to_delivery row = Inr d
     \<and> id' d = Some (c_id row) \<and> tracking_number d = c_tracking_number row
     \<and> c_sender row = a \<and> c_recipient row = b \<and> c_destination row = c
     \<and> c_status row = ''pending''
     \<and> tracking_events s' = tracking_events s @ [e]
     \<and> e_delivery_id e = c_id row \<and> e_status e = ''pending''
     \<and> e_message e = ''Shipment created''
     \<and> get s' (tracking_number d) = Inr (Some d)
     \<and> (events_have_parent s \<longrightarrow> history s' (tracking_number d) = Inr [e])"
proof -
  let ?rid = "next_rowid (seq_deliveries s) (map c_id (deliveries s))"
  let ?nd = "new_delivery ev a b c w co eta n"
  let ?dd = "?nd\<lparr>id' := Some ?rid\<rparr>"
  let ?row = "insert_values ?rid ?nd"
  let ?e = "creation_event s ev ?rid"
  obtain s' where cr: "create s ev a b c w co eta n = (Inr ?dd, s')"
    using create_fresh_ok[OF fresh ok, of a b c w co eta n] by simp
  from create_events[OF cr]
  have es: "tracking_events s' = tracking_events s @ [?e]"
    and ds: "deliveries s' = deliveries s @ [?row]" by simp_all
  have g: "get s' (tracking_number ?dd) = Inr (Some ?dd)" using cr by (rule create_get)
  have h: "history s' (tracking_number ?dd) = Inr [?e]" if "events_have_parent s"
    using create_history[OF that cr] by simp
  have fields: "sender ?dd = a" "recipient ?dd = b" "destination ?dd = c"
    "id' ?dd = Some (c_id ?row)" "tracking_number ?dd = c_tracking_number ?row"
    "c_sender ?row = a" "c_recipient ?row = b" "c_destination ?row = c"
    "c_status ?row = ''pending''"
    "e_delivery_id ?e = c_id ?row" "e_status ?e = ''pending''" "e_message ?e = ''Shipment created''"
    by (simp_all add: new_delivery_fields insert_values_fields creation_event_def)
  have rd: "row_to_delivery ?row = Inr ?dd" by (rule row_to_delivery_insert_values)
  show ?thesis
    using cr ds es g h fields rd
    by (intro exI[of _ ?dd] exI[of _ s'] exI[of _ ?row] exI[of _ ?e]) blast
qed

theorem create_accepts_empty_fields_witness:
  "\<not> known store_one (new_tracking_number (rnd env1)) \<and> event_insert_ok env1
   \<and> events_have_parent store_one
   \<and> (\<exists>d s' row e. create store_one env1 [] ''Bob'' [] 0 [] None [] = (Inr d, s')
     \<and> sender d = [] \<and> recipient d = ''Bob'' \<and> destination d = []
     \<and> deliveries s' = deliveries store_one @ [row]
     \<and> row_to_delivery row = Inr d
     \<and> id' d = Some (c_id row) \<and> tracking_number d = c_tracking_number row
     \<and> c_sender row = [] \<and> c_recipient row = ''Bob'' \<and> c_destination row = []
     \<and> c_status row = ''pending''
     \<and> tracking_events s' = tracking_events store_one @ [e]
     \<and> e_delivery_id e = c_id row \<and> e_status e = ''pending''
     \<and> e_message e = ''Shipment created''
     \<and> get s' (tracking_number d) = Inr (Some d)
     \<and> history s' (tracking_number d) = Inr [e])"
proof -
  have h1: "([]::string) = [] \<or> ''Bob'' = [] \<or> ([]::string) = []" by simp
  have h2: "\<not> known store_one (new_tracking_number (rnd env1))" by code_simp
  have h3: "event_insert_ok env1" by code_simp
  have h4: "events_have_parent store_one" by code_simp
  show ?thesis using h2 h3 h4 create_accepts_empty_fields[OF h1 h2 h3, of 0 "[]" None "[]"] by simp
qed

text \<open>C2 as stated fails: with all three strings empty \<^verbatim>\<open>create\<close> returns and stores.\<close>

theorem create_validation_counterexample:
  "\<not> isl (fst (create init_db env0 [] [] [] 0 [] None []))
   \<and> length (deliveries (snd (create init_db env0 [] [] [] 0 [] None []))) = 1
   \<and> length (tracking_events (snd (create init_db env0 [] [] [] 0 [] None []))) = 1"
  by code_simp

text \<open>
  C3, as the code has it. In every store reached from the empty one, every event refers to a
  stored Shipment (no creation event without its Shipment); and when no event INSERT was
  refused during the run, every stored Shipment has its creation event. But \<^verbatim>\<open>create\<close> is
  not atomic: the Shipment is committed before the event is appended, so when the event
  INSERT is refused, \<^verbatim>\<open>create\<close> raises and the Shipment stays stored without a creation
  event. (The specification asks for the Shipment to be rolled back.)
\<close>

theorem create_then_log_not_atomic:
  "events_have_parent (run init_db ops)
   \<and> (no_fault ops \<longrightarrow>
        (\<forall>r \<in> set (deliveries (run init_db ops)). has_creation_event (run init_db ops) r))
   \<and> (\<not> known (run init_db ops) (new_tracking_number (rnd ev)) \<and> \<not> event_insert_ok ev \<longrightarrow>
        (\<exists>row. fst (create (run init_db ops) ev a b c w co eta n) = Inl OperationalError
           \<and> deliveries (snd (create (run init_db ops) ev a b c w co eta n))
               = deliveries (run init_db ops) @ [row]
           \<and> c_tracking_number row = new_tracking_number (rnd ev)
           \<and> tracking_events (snd (create (run init_db ops) ev a b c w co eta n))
               = tracking_events (run init_db ops)
           \<and> \<not> has_creation_event (snd (create (run init_db ops) ev a b c w co eta n)) row))"
proof (intro conjI impI)
  show inv: "events_have_parent (run init_db ops)"
    using events_have_parent_init by (rule events_have_parent_run)
  show "\<forall>r \<in> set (deliveries (run init_db ops)). has_creation_event (run init_db ops) r"
    if "no_fault ops"
    using all_created_run[OF that all_created_init] by (simp add: all_created_def)
  show "\<exists>row. fst (create (run init_db ops) ev a b c w co eta n) = Inl OperationalError
           \<and> deliveries (snd (create (run init_db ops) ev a b c w co eta n))
               = deliveries (run init_db ops) @ [row]
           \<and> c_tracking_number row = new_tracking_number (rnd ev)
           \<and> tracking_events (snd (create (run init_db ops) ev a b c w co eta n))
               = tracking_events (run init_db ops)
           \<and> \<not> has_creation_event (snd (create (run init_db ops) ev a b c w co eta n)) row"
    if "\<not> known (run init_db ops) (new_tracking_number (rnd ev)) \<and> \<not> event_insert_ok ev"
    using that inv by (intro create_fault_orphan) simp_all
qed

theorem create_then_log_not_atomic_witness:
  "events_have_parent (run init_db [op_create1])
   \<and> no_fault [op_create1]
   \<and> list_all (has_creation_event (run init_db [op_create1])) (deliveries (run init_db [op_create1]))
   \<and> \<not> known (run init_db [op_create1]) (new_tracking_number (rnd env_fault))
   \<and> \<not> event_insert_ok env_fault
   \<and> (\<exists>row. fst (create (run init_db [op_create1]) env_fault ''Alice'' ''Bob'' ''123 Main St'' (5 / 2) [] None [])
               = Inl OperationalError
           \<and> deliveries (snd (create (run init_db [op_create1]) env_fault ''Alice'' ''Bob'' ''123 Main St'' (5 / 2) [] None []))
               = deliveries (run init_db [op_create1]) @ [row]
           \<and> c_tracking_number row = new_tracking_number (rnd env_fault)
           \<and> tracking_events (snd (create (run init_db [op_create1]) env_fault ''Alice'' ''Bob'' ''123 Main St'' (5 / 2) [] None []))
               = tracking_events (run init_db [op_create1])
           \<and> \<not> has_creation_event (snd (create (run init_db [op_create1]) env_fault ''Alice'' ''Bob'' ''123 Main St'' (5 / 2) [] None [])) row)"
proof -
  have h1: "no_fault [op_create1]" by code_simp
  have h2: "\<not> known (run init_db [op_create1]) (new_tracking_number (rnd env_fault))" by code_simp
  have h3: "\<not> event_insert_ok env_fault" by code_simp
  show ?thesis
    using h1 h2 h3
      create_then_log_not_atomic[of "[op_create1]" env_fault "''Alice''" "''Bob''" "''123 Main St''" "5 / 2" "[]" None "[]"]
    by (simp add: list_all_iff)
qed

text \<open>
  C3 as stated fails: after a \<^verbatim>\<open>create\<close> whose event INSERT is refused, the Shipment is
  stored and visible to \<^verbatim>\<open>get\<close>, and it has no event.
\<close>

theorem create_orphan_counterexample:
  "isl (fst (create init_db env_fault ''Alice'' ''Bob'' ''123 Main St'' (5 / 2) [] None []))
   \<and> store_orphan = snd (create init_db env_fault ''Alice'' ''Bob'' ''123 Main St'' (5 / 2) [] None [])
   \<and> map c_tracking_number (deliveries store_orphan) = [''BRAAAAAAAAAA'']
   \<and> tracking_events store_orphan = []
   \<and> get store_orphan ''BRAAAAAAAAAA'' = Inr (Some delivery_one)
   \<and> history store_orphan ''BRAAAAAAAAAA'' = Inr []"
  by code_simp

text \<open>
  C4. In every store reached from the empty one, a Shipment has an \<^verbatim>\<open>actual_delivery\<close>
  exactly when it was in status Delivered in some store of the run. An \<^verbatim>\<open>update_status\<close>
  to \<^verbatim>\<open>"delivered"\<close> on a stored Shipment sets \<^verbatim>\<open>actual_delivery\<close> to the time of the call,
  and an \<^verbatim>\<open>update_status\<close> to any other status leaves the \<^verbatim>\<open>actual_delivery\<close> of every
  Shipment as it was.
\<close>

theorem actual_delivery_iff_ever_delivered:
  "(\<forall>r \<in> set (deliveries (run init_db ops)).
      (c_actual_delivery r \<noteq> None) = ever_delivered init_db ops (c_tracking_number r))
   \<and> (known s tn \<longrightarrow>
        (\<exists>d. get (snd (update_status s ev tn ''delivered'' loc msg)) tn = Inr (Some d)
           \<and> actual_delivery d = Some (now_op ev) \<and> status d = DELIVERED))
   \<and> (ns \<noteq> ''delivered'' \<longrightarrow>
        map c_actual_delivery (deliveries (snd (update_status s ev tn ns loc msg)))
          = map c_actual_delivery (deliveries s))"
  using actual_inv_run[of ops]
  by (auto simp: actual_inv_def update_status_delivered_get update_status_keeps_actual)

theorem actual_delivery_iff_ever_delivered_witness:
  "map c_tracking_number (deliveries (run init_db ops_delivered_in_transit))
      = [''BRAAAAAAAAAA'', ''BRBBBBBBBBBB'']
   \<and> map c_status (deliveries (run init_db ops_delivered_in_transit)) = [''in_transit'', ''pending'']
   \<and> map c_actual_delivery (deliveries (run init_db ops_delivered_in_transit))
      = [Some ''2026-01-02T09:30:00.000001'', None]
   \<and> ever_delivered init_db ops_delivered_in_transit ''BRAAAAAAAAAA''
   \<and> \<not> ever_delivered init_db ops_delivered_in_transit ''BRBBBBBBBBBB''
   \<and> list_all (\<lambda>r. (c_actual_delivery r \<noteq> None)
                    = ever_delivered init_db ops_delivered_in_transit (c_tracking_number r))
        (deliveries (run init_db ops_delivered_in_transit))
   \<and> known store_two ''BRAAAAAAAAAA''
   \<and> (\<exists>d. get (snd (update_status store_two env1 ''BRAAAAAAAAAA'' ''delivered'' ''Depot A'' []))
              ''BRAAAAAAAAAA'' = Inr (Some d)
         \<and> actual_delivery d = Some (now_op env1) \<and> status d = DELIVERED)
   \<and> ''in_transit'' \<noteq> ''delivered''
   \<and> map c_actual_delivery
        (deliveries (snd (update_status store_delivered env2 ''BRAAAAAAAAAA'' ''in_transit'' [] [])))
      = map c_actual_delivery (deliveries store_delivered)"
proof -
  have e: "map c_tracking_number (deliveries (run init_db ops_delivered_in_transit))
      = [''BRAAAAAAAAAA'', ''BRBBBBBBBBBB'']"
    "map c_status (deliveries (run init_db ops_delivered_in_transit)) = [''in_transit'', ''pending'']"
    "map c_actual_delivery (deliveries (run init_db ops_delivered_in_transit))
      = [Some ''2026-01-02T09:30:00.000001'', None]"
    "ever_delivered init_db ops_delivered_in_transit ''BRAAAAAAAAAA''"
    "\<not> ever_delivered init_db ops_delivered_in_transit ''BRBBBBBBBBBB''"
    by code_simp+
  have h1: "known store_two ''BRAAAAAAAAAA''" by code_simp
  have h2: "''in_transit'' \<noteq> ''delivered''" by simp
  from actual_delivery_iff_ever_delivered[of ops_delivered_in_transit store_two "''BRAAAAAAAAAA''"
      env1 "''Depot A''" "[]" "''in_transit''"] h1
  have a: "list_all (\<lambda>r. (c_actual_delivery r \<noteq> None)
                    = ever_delivered init_db ops_delivered_in_transit (c_tracking_number r))
        (deliveries (run init_db ops_delivered_in_transit))"
    and b: "\<exists>d. get (snd (update_status store_two env1 ''BRAAAAAAAAAA'' ''delivered'' ''Depot A'' []))
              ''BRAAAAAAAAAA'' = Inr (Some d)
         \<and> actual_delivery d = Some (now_op env1) \<and> status d = DELIVERED"
    by (simp_all add: list_all_iff)
  from actual_delivery_iff_ever_delivered[of "[]" store_delivered "''BRAAAAAAAAAA''"
      env2 "[]" "[]" "''in_transit''"] h2
  have c: "map c_actual_delivery
        (deliveries (snd (update_status store_delivered env2 ''BRAAAAAAAAAA'' ''in_transit'' [] [])))
      = map c_actual_delivery (deliveries store_delivered)"
    by blast
  show ?thesis using e a b c h1 h2 by blast
qed




text \<open>
  C6, as the code has it. When the generated tracking number is that of a stored Shipment,
  \<^verbatim>\<open>create\<close> fails with the IntegrityError of the UNIQUE constraint after this one attempt
  and leaves the store as it was; no second code is drawn. (The specification asks for internal
  retries with a fresh code.)
\<close>

theorem create_collision_fails_once:
  assumes "known s (new_tracking_number (rnd ev))"
  shows "create s ev a b c w co eta n = (Inl IntegrityError, s)"
  using assms by (simp add: create_def new_delivery_def known_def Let_def)

theorem create_collision_fails_once_witness:
  "known store_one (new_tracking_number (rnd env_retry))
   \<and> create store_one env_retry ''Carol'' ''Dave'' ''9 Side Rd'' 1 [] None []
       = (Inl IntegrityError, store_one)"
proof -
  have h: "known store_one (new_tracking_number (rnd env_retry))" by code_simp
  show ?thesis using h create_collision_fails_once[OF h] by simp
qed

text \<open>
  C6 as stated fails: the first code collides, the next ten draws of the random stream
  would give a code that is free, and \<^verbatim>\<open>create\<close> still fails.
\<close>

theorem create_retry_counterexample:
  "create store_one env_retry ''Carol'' ''Dave'' ''9 Side Rd'' 1 [] None []
     = (Inl IntegrityError, store_one)
   \<and> \<not> known store_one (new_tracking_number (rnd_after 10 (rnd env_retry)))"
  by code_simp

text \<open>
  C7, as the code has it. For a declared status \<open>v\<close>, \<^verbatim>\<open>list_deliveries(v)\<close> returns exactly
  the Shipments whose stored status is \<open>v\<close>. With no filter it returns every Shipment,
  provided every stored status is a declared one; when some stored status is not (see C9),
  the unfiltered listing fails with ValueError. Every returned list is in descending order
  of \<^verbatim>\<open>updated_at\<close>.
\<close>

theorem list_deliveries_filter_sorted:
  "(declared v \<longrightarrow>
      (\<exists>ds. list_deliveries s (Some v) = Inr ds
         \<and> mset (map Inr ds) = mset (map row_to_delivery (filter (\<lambda>r. c_status r = v) (deliveries s)))
         \<and> (\<forall>d \<in> set ds. status_value (status d) = v)
         \<and> sorted (rev (map updated_at ds))))
   \<and> ((\<forall>r \<in> set (deliveries s). declared (c_status r)) \<longrightarrow>
      (\<exists>ds. list_deliveries s None = Inr ds
         \<and> mset (map Inr ds) = mset (map row_to_delivery (deliveries s))
         \<and> sorted (rev (map updated_at ds))))
   \<and> ((\<exists>r \<in> set (deliveries s). \<not> declared (c_status r)) \<longrightarrow>
      list_deliveries s None = Inl ValueError)"
proof (intro conjI impI)
  assume v: "declared v"
  let ?rows = "filter (\<lambda>r. c_status r = v) (deliveries s)"
  have l: "list_deliveries s (Some v) = rows_to_deliveries (order_by_updated_at_desc ?rows)"
    using declared_nonempty[OF v] by (simp add: list_deliveries_def)
  have "\<forall>r \<in> set (order_by_updated_at_desc ?rows). declared (c_status r)"
    using v by simp
  then obtain ds where ds: "rows_to_deliveries (order_by_updated_at_desc ?rows) = Inr ds"
    using rows_to_deliveries_declared by blast
  have "status_value (status d) = v" if "d \<in> set ds" for d
  proof -
    from ds have "map row_to_delivery (order_by_updated_at_desc ?rows) = map Inr ds"
      by (simp add: rows_to_deliveries_Inr_iff)
    then have "set (map row_to_delivery (order_by_updated_at_desc ?rows)) = set (map Inr ds)"
      by simp
    then have "Inr d \<in> row_to_delivery ` set (order_by_updated_at_desc ?rows)"
      using that by (simp only: set_map) blast
    then obtain r where "r \<in> set ?rows" "row_to_delivery r = Inr d" by auto
    then show ?thesis using row_to_delivery_fields[of r d] by simp
  qed
  with l ds rows_to_deliveries_sorted[OF ds]
  show "\<exists>ds. list_deliveries s (Some v) = Inr ds
         \<and> mset (map Inr ds) = mset (map row_to_delivery ?rows)
         \<and> (\<forall>d \<in> set ds. status_value (status d) = v)
         \<and> sorted (rev (map updated_at ds))"
    by simp
next
  assume "\<forall>r \<in> set (deliveries s). declared (c_status r)"
  then obtain ds where ds: "rows_to_deliveries (order_by_updated_at_desc (deliveries s)) = Inr ds"
    using rows_to_deliveries_declared[of "order_by_updated_at_desc (deliveries s)"] by auto
  with rows_to_deliveries_sorted[OF ds]
  show "\<exists>ds. list_deliveries s None = Inr ds
         \<and> mset (map Inr ds) = mset (map row_to_delivery (deliveries s))
         \<and> sorted (rev (map updated_at ds))"
    by (simp add: list_deliveries_def)
next
  assume "\<exists>r \<in> set (deliveries s). \<not> declared (c_status r)"
  then show "list_deliveries s None = Inl ValueError"
    by (simp add: list_deliveries_def rows_to_deliveries_undeclared)
qed

theorem list_deliveries_filter_sorted_witness:
  "declared ''pending''
   \<and> list_deliveries store_listing (Some ''pending'') = Inr [delivery_two]
   \<and> map c_status (deliveries store_listing) = [''in_transit'', ''pending'']
   \<and> (\<exists>ds. list_deliveries store_listing None = Inr ds
         \<and> map tracking_number ds = [''BRAAAAAAAAAA'', ''BRBBBBBBBBBB'']
         \<and> mset (map Inr ds) = mset (map row_to_delivery (deliveries store_listing))
         \<and> sorted (rev (map updated_at ds)))
   \<and> map c_status (deliveries store_lost) = [''lost'']
   \<and> \<not> declared ''lost''
   \<and> list_deliveries store_lost None = Inl ValueError"
proof -
  have h1: "declared ''pending''" by code_simp
  have e1: "list_deliveries store_listing (Some ''pending'') = Inr [delivery_two]" by code_simp
  have st: "map c_status (deliveries store_listing) = [''in_transit'', ''pending'']" by code_simp
  have tns: "map_sum id (map tracking_number) (list_deliveries store_listing None)
     = Inr [''BRAAAAAAAAAA'', ''BRBBBBBBBBBB'']" by code_simp
  have "\<forall>v \<in> set (map c_status (deliveries store_listing)). declared v"
    unfolding st by code_simp
  then have h2: "\<forall>r \<in> set (deliveries store_listing). declared (c_status r)" by simp
  have sl: "map c_status (deliveries store_lost) = [''lost'']" by code_simp
  have nl: "\<not> declared ''lost''" by code_simp
  have "\<exists>v \<in> set (map c_status (deliveries store_lost)). \<not> declared v"
    unfolding sl using nl by simp
  then have h3: "\<exists>r \<in> set (deliveries store_lost). \<not> declared (c_status r)" by simp
  from list_deliveries_filter_sorted[of "''pending''" store_listing] h2 tns
  have a: "\<exists>ds. list_deliveries store_listing None = Inr ds
         \<and> map tracking_number ds = [''BRAAAAAAAAAA'', ''BRBBBBBBBBBB'']
         \<and> mset (map Inr ds) = mset (map row_to_delivery (deliveries store_listing))
         \<and> sorted (rev (map updated_at ds))"
    by auto
  from list_deliveries_filter_sorted[of "''pending''" store_lost] h3
  have b: "list_deliveries store_lost None = Inl ValueError" by blast
  show ?thesis using h1 e1 st a sl nl b by blast
qed

text \<open>
  C7 as stated fails: after a \<^verbatim>\<open>create\<close> and an \<^verbatim>\<open>update_status\<close> to \<^verbatim>\<open>"lost"\<close> the store
  holds one Shipment, and the listing with no filter returns no Shipment: it raises.
\<close>

theorem list_deliveries_unfiltered_counterexample:
  "store_lost = run init_db [op_create0, op_lost]
   \<and> length (deliveries store_lost) = 1
   \<and> list_deliveries store_lost None = Inl ValueError"
  by code_simp

text \<open>
  C8. The Shipment that \<^verbatim>\<open>create\<close> returns has a tracking number of twelve characters:
  the prefix \<^verbatim>\<open>BR\<close> and ten characters of A to Z and 0 to 9; and no Shipment stored before
  the call has that tracking number. (Shipments are never deleted and tracking numbers
  never change, so the stored ones are all that were created: the call only adds the new
  tracking number to them.)
\<close>

theorem create_tracking_number_shape_unique:
  assumes "create s ev a b c w co eta n = (Inr d, s')"
  shows "take 2 (tracking_number d) = ''BR'' \<and> length (tracking_number d) = 12
         \<and> set (drop 2 (tracking_number d)) \<subseteq> set (ascii_uppercase @ digits)
         \<and> \<not> known s (tracking_number d)
         \<and> map c_tracking_number (deliveries s')
             = map c_tracking_number (deliveries s) @ [tracking_number d]"
proof -
  from create_Inr[OF assms]
  have tn: "tracking_number d = new_tracking_number (rnd ev)"
    and fresh: "\<not> known s (new_tracking_number (rnd ev))" by simp_all
  have "ascii_uppercase @ digits \<noteq> []" by (simp add: ascii_uppercase_def)
  then have "set (choices (rnd ev) (ascii_uppercase @ digits) 10) \<subseteq> set (ascii_uppercase @ digits)"
    by (rule set_choices)
  with tn fresh have shape: "take 2 (tracking_number d) = ''BR'' \<and> length (tracking_number d) = 12
         \<and> set (drop 2 (tracking_number d)) \<subseteq> set (ascii_uppercase @ digits)
         \<and> \<not> known s (tracking_number d)"
    by (auto simp: new_tracking_number_def length_choices)
  have "deliveries s' = deliveries (snd (create s ev a b c w co eta n))" using assms by simp
  then have "map c_tracking_number (deliveries s')
             = map c_tracking_number (deliveries s) @ [tracking_number d]"
    using fresh tn by (simp add: deliveries_create insert_values_fields new_delivery_fields)
  with shape show ?thesis by simp
qed

theorem create_tracking_number_shape_unique_witness:
  "create store_one env1 ''Carol'' ''Dave'' ''9 Side Rd'' 1 [] None [] = (Inr delivery_two, store_two)
   \<and> tracking_number delivery_two = ''BRBBBBBBBBBB''
   \<and> map c_tracking_number (deliveries store_one) = [''BRAAAAAAAAAA'']
   \<and> take 2 (tracking_number delivery_two) = ''BR'' \<and> length (tracking_number delivery_two) = 12
   \<and> set (drop 2 (tracking_number delivery_two)) \<subseteq> set (ascii_uppercase @ digits)
   \<and> \<not> known store_one (tracking_number delivery_two)
   \<and> map c_tracking_number (deliveries store_two) = [''BRAAAAAAAAAA'', ''BRBBBBBBBBBB'']"
proof -
  have h: "create store_one env1 ''Carol'' ''Dave'' ''9 Side Rd'' 1 [] None []
             = (Inr delivery_two, store_two)" by code_simp
  have e: "tracking_number delivery_two = ''BRBBBBBBBBBB''"
    "map c_tracking_number (deliveries store_one) = [''BRAAAAAAAAAA'']" by code_simp+
  show ?thesis using h e create_tracking_number_shape_unique[OF h] by simp
qed

text \<open>
  C9. \<^verbatim>\<open>update_status\<close> does not check \<^verbatim>\<open>new_status\<close> against the eight declared values.
  For a string that is none of them (\<^verbatim>\<open>"lost"\<close>, say) and a tracking number of a stored
  Shipment, the UPDATE is committed, so the stored status is that string; reading the row
  back then raises ValueError; no event is appended; and from then on \<^verbatim>\<open>get\<close> on that
  tracking number, the listing with no filter and the listing filtered by that string all
  raise ValueError.
\<close>

theorem update_status_undeclared_corrupts:
  assumes undecl: "\<not> declared new_status" and kn: "known s tn"
    and upd: "update_status s ev tn new_status location message = (res, s')"
  shows "res = Inl ValueError
       \<and> known s' tn
       \<and> (\<forall>r \<in> set (deliveries s'). c_tracking_number r = tn \<longrightarrow> c_status r = new_status)
       \<and> tracking_events s' = tracking_events s
       \<and> get s' tn = Inl ValueError
       \<and> list_deliveries s' None = Inl ValueError
       \<and> list_deliveries s' (Some new_status) = Inl ValueError"
proof -
  define s1 where "s1 = s\<lparr>deliveries := update_rows new_status None (now_op ev) tn (deliveries s)\<rparr>"
  have nd: "new_status \<noteq> ''delivered''"
    using undecl by (auto simp: declared_def all_statuses_def)
  have kn1: "known s1 tn" using kn by (simp add: known_iff s1_def map_tn_update_rows)
  have st1: "c_status r = new_status" if "r \<in> set (deliveries s1)" "c_tracking_number r = tn" for r
    using update_rows_status[of r new_status None "now_op ev" tn "deliveries s"] that
    by (simp add: s1_def)
  from kn1 obtain r where r: "find (\<lambda>r. c_tracking_number r = tn) (deliveries s1) = Some r"
    "r \<in> set (deliveries s1)" "c_tracking_number r = tn"
    unfolding known_def
    using find_Some_known[of "deliveries s1" "\<lambda>r. c_tracking_number r = tn"] by blast
  have rst: "c_status r = new_status" using r(2,3) by (rule st1)
  have bad: "\<not> declared (c_status r)" using undecl by (simp add: rst)
  have g: "get s1 tn = Inl ValueError"
    using r(1) bad by (simp add: get_def row_to_delivery_undeclared)
  have res: "update_status s ev tn new_status location message = (Inl ValueError, s1)"
    using g nd by (simp add: update_status_def Let_def s1_def[symmetric])
  with upd have eq: "res = Inl ValueError" "s' = s1" by simp_all
  have ex: "\<exists>r \<in> set (deliveries s1). \<not> declared (c_status r)" using r bad by blast
  have l1: "list_deliveries s1 None = Inl ValueError"
    using ex by (simp add: list_deliveries_def rows_to_deliveries_undeclared)
  have "r \<in> set (filter (\<lambda>r. c_status r = new_status) (deliveries s1))"
    using r(2) rst by simp
  then have exf: "\<exists>r \<in> set (filter (\<lambda>r. c_status r = new_status) (deliveries s1)).
                    \<not> declared (c_status r)"
    using bad by blast
  have l2: "list_deliveries s1 (Some new_status) = Inl ValueError"
  proof (cases "new_status = []")
    case True
    then show ?thesis using l1 by (simp add: list_deliveries_def)
  next
    case False
    then show ?thesis
      using rows_to_deliveries_undeclared[of "order_by_updated_at_desc
               (filter (\<lambda>r. c_status r = new_status) (deliveries s1))"] exf
      by (simp add: list_deliveries_def)
  qed
  have ev: "tracking_events s1 = tracking_events s" by (simp add: s1_def)
  have st: "\<forall>r \<in> set (deliveries s1). c_tracking_number r = tn \<longrightarrow> c_status r = new_status"
    using st1 by blast
  show ?thesis unfolding eq using kn1 st g l1 l2 ev by blast
qed

theorem update_status_undeclared_corrupts_witness:
  "\<not> declared ''lost'' \<and> known store_one ''BRAAAAAAAAAA''
   \<and> update_status store_one env1 ''BRAAAAAAAAAA'' ''lost'' [] [] = (Inl ValueError, store_lost)
   \<and> map c_status (deliveries store_lost) = [''lost'']
   \<and> tracking_events store_lost = tracking_events store_one
   \<and> get store_lost ''BRAAAAAAAAAA'' = Inl ValueError
   \<and> list_deliveries store_lost None = Inl ValueError
   \<and> list_deliveries store_lost (Some ''lost'') = Inl ValueError"
proof -
  have h1: "\<not> declared ''lost''" by code_simp
  have h2: "known store_one ''BRAAAAAAAAAA''" by code_simp
  have h3: "update_status store_one env1 ''BRAAAAAAAAAA'' ''lost'' [] []
              = (Inl ValueError, store_lost)" by code_simp
  have e: "map c_status (deliveries store_lost) = [''lost'']" by code_simp
  show ?thesis using h1 h2 h3 e update_status_undeclared_corrupts[OF h1 h2 h3] by simp
qed

text \<open>
  C10. An \<^verbatim>\<open>update_status\<close> on a tracking number that identifies no stored Shipment
  returns \<^verbatim>\<open>None\<close> and leaves the whole store as it was: no row of \<^verbatim>\<open>deliveries\<close> is
  changed and no event is appended.
\<close>

theorem update_status_unknown_frame:
  assumes "\<not> known s tn"
  shows "update_status s ev tn new_status location message = (Inr None, s)"
  using assms by (rule update_status_unknown)

theorem update_status_unknown_frame_witness:
  "\<not> known store_two ''BRZZZZZZZZZZ''
   \<and> update_status store_two env2 ''BRZZZZZZZZZZ'' ''delivered'' ''Depot A'' []
       = (Inr None, store_two)"
proof -
  have h: "\<not> known store_two ''BRZZZZZZZZZZ''" by code_simp
  show ?thesis using h update_status_unknown_frame[OF h] by simp
qed

end
